theory Spec2Isabelle
  imports Main
begin

section \<open>nanovdb_convert: the batch conversion driver\<close>

text \<open>
  A shallow embedding of \<^verbatim>\<open>main\<close> of \<^verbatim>\<open>nanovdb/cmd/convert/nanovdb_convert.cpp\<close>.
  The argument vector is the list of the tokens after \<^verbatim>\<open>argv[0]\<close>. Everything the driver
  asks of the outside world (the output file's first byte, the line read from standard input,
  the calls into OpenVDB and NanoVDB) is a field of an environment record. A run yields the
  exit status, the way it ended and the sequence of the file and library operations it made.
  Text printed to the terminal is not part of the trace, the overwrite prompt apart; which
  error message came with the usage text is kept in the ending.
\<close>

subsection \<open>Options\<close>

text \<open>
  Modelled from the spec: the enumerations \<^verbatim>\<open>nanovdb::io::Codec\<close>, \<^verbatim>\<open>nanovdb::StatsMode\<close>
  and \<^verbatim>\<open>nanovdb::ChecksumMode\<close> are declared in the headers of the library, not in the source
  file of the converter. The spec describes them as closed tagged variants; each enumerator the
  driver names is a constructor here (the C++ scopes \<^verbatim>\<open>StatsMode::Disable\<close> and
  \<^verbatim>\<open>ChecksumMode::Disable\<close> become \<open>SM_Disable\<close> and \<open>CM_Disable\<close>). Nothing below depends on
  \<open>Default\<close> being different from the other enumerators.
\<close>

datatype Codec = NONE | ZIP | BLOSC

datatype StatsMode = SM_Disable | SM_BBox | SM_MinMax | SM_All | SM_Default

datatype ChecksumMode = CM_Disable | CM_Partial | CM_Full | CM_Default

record opts =
  codec :: Codec
  sMode :: StatsMode
  cMode :: ChecksumMode
  verbose :: bool
  overwrite :: bool
  gridName :: string
  fileNames :: "string list"

definition init_opts :: opts where
  "init_opts = \<lparr>codec = NONE, sMode = SM_Default, cMode = CM_Default, verbose = False,
                overwrite = False, gridName = [], fileNames = []\<rparr>"

text \<open>The exit statuses of \<^verbatim>\<open><cstdlib>\<close>, with their usual values.\<close>

definition EXIT_SUCCESS :: nat where
  "EXIT_SUCCESS = 0"

definition EXIT_FAILURE :: nat where
  "EXIT_FAILURE = 1"

text \<open>The message printed before the usage text; \<open>Help\<close> is the bare usage text of \<^verbatim>\<open>-h\<close>.\<close>

datatype usage_msg =
    Help
  | ExpectedChecksumMode
  | BadChecksumMode
  | ExpectedStatsMode
  | BadStatsMode
  | ExpectedGridName
  | UnrecognizedOption string
  | TooFewFiles
  | UnrecognizedExtension string
  | ExpectedVdbInputs
  | ExpectedNvdbInputs
  | GridNotFound string

text \<open>
  How a run ends: \<^verbatim>\<open>usage(argv[0], exitStatus)\<close>, which prints and calls \<^verbatim>\<open>exit\<close>; the
  \<^verbatim>\<open>exit(EXIT_SUCCESS)\<close> of a declined overwrite; an exception caught by one of the two
  handlers at the end of \<^verbatim>\<open>main\<close>.
\<close>

datatype ending = UsageExit usage_msg nat | Declined | Caught string

text \<open>The default argument of \<^verbatim>\<open>usage\<close> is \<^verbatim>\<open>EXIT_FAILURE\<close>.\<close>

definition usage :: "usage_msg \<Rightarrow> ending" where
  "usage m = UsageExit m EXIT_FAILURE"

subsection \<open>Strings\<close>

text \<open>\<^verbatim>\<open>std::tolower\<close> on an \<^verbatim>\<open>unsigned char\<close>, in the C locale: only A to Z change.\<close>

definition tolower :: "char \<Rightarrow> char" where
  "tolower c = (let n = (of_char c :: nat) in if 65 \<le> n \<and> n \<le> 90 then char_of (n + 32) else c)"

text \<open>\<^verbatim>\<open>std::string::find_last_of\<close> with a single character; \<open>None\<close> is \<^verbatim>\<open>npos\<close>.\<close>

fun find_last_of :: "string \<Rightarrow> char \<Rightarrow> nat option" where
  "find_last_of [] c = None"
| "find_last_of (x # xs) c =
     (case find_last_of xs c of
        Some i \<Rightarrow> Some (Suc i)
      | None \<Rightarrow> if x = c then Some 0 else None)"

text \<open>
  \<^verbatim>\<open>s.substr(s.find_last_of(".") + 1)\<close>. When there is no dot, \<^verbatim>\<open>npos + 1\<close> wraps to 0 and
  the whole string is returned.
\<close>

definition ext_of :: "string \<Rightarrow> string" where
  "ext_of s = (case find_last_of s CHR ''.'' of None \<Rightarrow> s | Some i \<Rightarrow> drop (i + 1) s)"

subsection \<open>Argument parsing (the loop over \<^verbatim>\<open>argv\<close>)\<close>

text \<open>
  One pass through the body of the loop: \<open>arg\<close> is \<^verbatim>\<open>argv[i]\<close> and \<open>rest\<close> the tokens after
  it. The result is a call of \<^verbatim>\<open>usage\<close> (\<open>Inl\<close>, with the message and the exit status), or
  the options as updated together with the tokens still to be read: an option that takes a
  value reads \<^verbatim>\<open>argv[++i]\<close>. \<^verbatim>\<open>arg[0]\<close> of an empty \<^verbatim>\<open>std::string\<close> is the null character,
  so an empty token is no option; it is no file name either and is skipped.
\<close>

definition parse_arg ::
  "opts \<Rightarrow> string \<Rightarrow> string list \<Rightarrow> (usage_msg \<times> nat) + (opts \<times> string list)" where
  "parse_arg p arg rest =
    (if arg \<noteq> [] \<and> hd arg = CHR ''-'' then
       (if arg = ''-v'' \<or> arg = ''--verbose'' then Inr (p\<lparr>verbose := True\<rparr>, rest)
        else if arg = ''-f'' \<or> arg = ''--force'' then Inr (p\<lparr>overwrite := True\<rparr>, rest)
        else if arg = ''-h'' \<or> arg = ''--help'' then Inl (Help, EXIT_SUCCESS)
        else if arg = ''-b'' \<or> arg = ''--blosc'' then Inr (p\<lparr>codec := BLOSC\<rparr>, rest)
        else if arg = ''-z'' \<or> arg = ''--zip'' then Inr (p\<lparr>codec := ZIP\<rparr>, rest)
        else if arg = ''-c'' \<or> arg = ''--checksum'' then
          (case rest of
             [] \<Rightarrow> Inl (ExpectedChecksumMode, EXIT_FAILURE)
           | v # rest' \<Rightarrow>
               (let str = map tolower v in
                if str = ''none'' then Inr (p\<lparr>cMode := CM_Disable\<rparr>, rest')
                else if str = ''partial'' then Inr (p\<lparr>cMode := CM_Partial\<rparr>, rest')
                else if str = ''full'' then Inr (p\<lparr>cMode := CM_Full\<rparr>, rest')
                else Inl (BadChecksumMode, EXIT_FAILURE)))
        else if arg = ''-s'' \<or> arg = ''--stats'' then
          (case rest of
             [] \<Rightarrow> Inl (ExpectedStatsMode, EXIT_FAILURE)
           | v # rest' \<Rightarrow>
               (let str = map tolower v in
                if str = ''none'' then Inr (p\<lparr>sMode := SM_Disable\<rparr>, rest')
                else if str = ''bbox'' then Inr (p\<lparr>sMode := SM_BBox\<rparr>, rest')
                else if str = ''extrema'' then Inr (p\<lparr>sMode := SM_MinMax\<rparr>, rest')
                else if str = ''all'' then Inr (p\<lparr>sMode := SM_All\<rparr>, rest')
                else Inl (BadStatsMode, EXIT_FAILURE)))
        else if arg = ''-g'' \<or> arg = ''--grid'' then
          (case rest of
             [] \<Rightarrow> Inl (ExpectedGridName, EXIT_FAILURE)
           | v # rest' \<Rightarrow> Inr (p\<lparr>gridName := v\<rparr>, rest'))
        else Inl (UnrecognizedOption arg, EXIT_FAILURE))
     else if arg \<noteq> [] then Inr (p\<lparr>fileNames := fileNames p @ [arg]\<rparr>, rest)
     else Inr (p, rest))"

text \<open>The loop, from left to right, until the tokens are used up or \<^verbatim>\<open>usage\<close> is called.\<close>

function parse_args :: "opts \<Rightarrow> string list \<Rightarrow> (usage_msg \<times> nat) + opts" where
  "parse_args p [] = Inr p"
| "parse_args p (arg # rest) =
     (case parse_arg p arg rest of
        Inl e \<Rightarrow> Inl e
      | Inr (p', rest') \<Rightarrow> parse_args p' rest')"
  by pat_completeness auto
termination
proof (relation "measure (\<lambda>(p, args). length args)")
  fix p arg rest x p' rest'
  assume "parse_arg p arg rest = Inr x" and "(p', rest') = x"
  then have step: "parse_arg p arg rest = Inr (p', rest')"
    by simp
  have "parse_arg p arg rest = Inr (p', rest') \<longrightarrow> length rest' \<le> length rest"
    unfolding parse_arg_def Let_def by (simp split: list.split)
  with step have "length rest' \<le> length rest"
    by (rule rev_mp)
  then show "((p', rest'), (p, arg # rest)) \<in> measure (\<lambda>(p, args). length args)"
    by simp
qed simp

subsection \<open>The outside world\<close>

text \<open>
  A library call returns or throws; an exception thrown inside the \<^verbatim>\<open>try\<close> block is caught
  at the end of \<^verbatim>\<open>main\<close> (both handlers set \<^verbatim>\<open>EXIT_FAILURE\<close>; the string is what the
  handler prints).
\<close>

datatype 'a lib = Throws string | Returns 'a

text \<open>
  \<open>'g\<close> is an OpenVDB grid, \<open>'h\<close> a NanoVDB grid handle; \<^verbatim>\<open>readGrid\<close> of NanoVDB returns
  an empty handle (\<open>None\<close>) when the file has no grid of that name. \<open>peek_nonempty path\<close> is
  \<^verbatim>\<open>is.peek() != eof\<close> on an input stream opened on the path: true exactly when the path
  names a readable file that is not empty. \<open>answer\<close> is the line \<^verbatim>\<open>getline\<close> reads from
  standard input. The answers of the library are functions of their arguments: they do not
  change during a run.
\<close>

record ('g, 'h) env =
  peek_nonempty :: "string \<Rightarrow> bool"
  answer :: string
  file_open :: "string \<Rightarrow> unit lib"
  getGrids :: "string \<Rightarrow> 'g list lib"
  file_readGrid :: "string \<Rightarrow> string \<Rightarrow> 'g lib"
  openToNanoVDB :: "'g \<Rightarrow> StatsMode \<Rightarrow> ChecksumMode \<Rightarrow> bool \<Rightarrow> 'h lib"
  writeGrid :: "string \<Rightarrow> 'h \<Rightarrow> Codec \<Rightarrow> unit lib"
  readGrids :: "string \<Rightarrow> bool \<Rightarrow> 'h list lib"
  readGrid :: "string \<Rightarrow> string \<Rightarrow> 'h option lib"
  nanoToOpenVDB :: "'h \<Rightarrow> 'g lib"
  file_write :: "string \<Rightarrow> 'g list \<Rightarrow> unit lib"

text \<open>
  The operations a run makes, in order:
  \<^item> \<open>PeekOutput\<close>: \<^verbatim>\<open>std::ifstream is(outputFile, ...)\<close> and \<^verbatim>\<open>is.peek()\<close>;
  \<^item> \<open>Prompt\<close>: the question on \<^verbatim>\<open>std::cout\<close> and \<^verbatim>\<open>getline(std::cin, answer)\<close>;
  \<^item> \<open>Initialize\<close>: \<^verbatim>\<open>openvdb::initialize()\<close>;
  \<^item> \<open>OpenOfstream\<close>: \<^verbatim>\<open>std::ofstream os(outputFile, std::ios::out | std::ios::binary)\<close>;
  \<^item> \<open>FileOpen\<close>: \<^verbatim>\<open>openvdb::io::File file(inputFile)\<close> and \<^verbatim>\<open>file.open(false)\<close>;
  \<^item> \<open>GetGrids\<close>: \<^verbatim>\<open>file.getGrids()\<close>; \<open>FileReadGrid\<close>: \<^verbatim>\<open>file.readGrid(gridName)\<close>;
  \<^item> \<open>OpenToNano\<close>: \<^verbatim>\<open>nanovdb::openToNanoVDB(grid, sMode, cMode, false, verbose ? 1 : 0)\<close>;
  \<^item> \<open>WriteGrid\<close>: \<^verbatim>\<open>nanovdb::io::writeGrid(os, handle, codec)\<close>, with the path of \<^verbatim>\<open>os\<close>;
  \<^item> \<open>ReadGrids\<close>: \<^verbatim>\<open>nanovdb::io::readGrids(inputFile, verbose)\<close>;
  \<^item> \<open>ReadGrid\<close>: \<^verbatim>\<open>nanovdb::io::readGrid(inputFile, gridName)\<close>;
  \<^item> \<open>NanoToOpen\<close>: \<^verbatim>\<open>nanoToOpenVDB(h)\<close>;
  \<^item> \<open>FileWrite\<close>: \<^verbatim>\<open>file.write(*grids)\<close> on \<^verbatim>\<open>openvdb::io::File file(outputFile)\<close>.
\<close>

datatype ('g, 'h) event =
    PeekOutput string
  | Prompt string
  | Initialize
  | OpenOfstream string
  | FileOpen string
  | GetGrids string
  | FileReadGrid string string
  | OpenToNano 'g
  | WriteGrid string 'h Codec
  | ReadGrids string
  | ReadGrid string string
  | NanoToOpen 'h
  | FileWrite string "'g list"

text \<open>
  The path an operation creates, truncates or writes: opening a \<^verbatim>\<open>std::ofstream\<close> with
  \<^verbatim>\<open>std::ios::out | std::ios::binary\<close> creates the file or cuts it to length zero.
\<close>

fun writes_to :: "('g, 'h) event \<Rightarrow> string option" where
  "writes_to (OpenOfstream path) = Some path"
| "writes_to (WriteGrid path h c) = Some path"
| "writes_to (FileWrite path gs) = Some path"
| "writes_to e = None"

text \<open>The input file an operation opens for reading.\<close>

fun opens_input :: "('g, 'h) event \<Rightarrow> string option" where
  "opens_input (FileOpen path) = Some path"
| "opens_input (GetGrids path) = Some path"
| "opens_input (FileReadGrid path n) = Some path"
| "opens_input (ReadGrids path) = Some path"
| "opens_input (ReadGrid path n) = Some path"
| "opens_input e = None"

text \<open>
  A piece of the run: the operations made so far, and either the way the run ended or the
  value the piece hands on.
\<close>

type_synonym ('g, 'h, 'a) run = "('g, 'h) event list \<times> (ending + 'a)"

definition ret :: "'a \<Rightarrow> ('g, 'h, 'a) run" where
  "ret x = ([], Inr x)"

definition stop :: "ending \<Rightarrow> ('g, 'h, 'a) run" where
  "stop e = ([], Inl e)"

definition emit :: "('g, 'h) event \<Rightarrow> ('g, 'h, unit) run" where
  "emit ev = ([ev], Inr ())"

definition and_then :: "('g, 'h, 'a) run \<Rightarrow> ('a \<Rightarrow> ('g, 'h, 'b) run) \<Rightarrow> ('g, 'h, 'b) run" where
  "and_then m k =
     (case m of
        (tr, Inl e) \<Rightarrow> (tr, Inl e)
      | (tr, Inr x) \<Rightarrow> (case k x of (tr', r) \<Rightarrow> (tr @ tr', r)))"

text \<open>A library call inside the \<^verbatim>\<open>try\<close> block.\<close>

definition call :: "('g, 'h) event \<Rightarrow> 'a lib \<Rightarrow> ('g, 'h, 'a) run" where
  "call ev r = (case r of Throws m \<Rightarrow> ([ev], Inl (Caught m)) | Returns x \<Rightarrow> ([ev], Inr x))"

subsection \<open>OpenVDB to NanoVDB\<close>

text \<open>\<^verbatim>\<open>openToNanoVDB\<close> followed by \<^verbatim>\<open>writeGrid\<close> on the open output stream.\<close>

definition convert_grid :: "('g, 'h) env \<Rightarrow> opts \<Rightarrow> string \<Rightarrow> 'g \<Rightarrow> ('g, 'h, unit) run" where
  "convert_grid env p outputFile grid =
     and_then (call (OpenToNano grid) (openToNanoVDB env grid (sMode p) (cMode p) (verbose p)))
       (\<lambda>handle. call (WriteGrid outputFile handle (codec p))
                       (writeGrid env outputFile handle (codec p)))"

fun convert_grids :: "('g, 'h) env \<Rightarrow> opts \<Rightarrow> string \<Rightarrow> 'g list \<Rightarrow> ('g, 'h, unit) run" where
  "convert_grids env p outputFile [] = ret ()"
| "convert_grids env p outputFile (grid # grids) =
     and_then (convert_grid env p outputFile grid) (\<lambda>_. convert_grids env p outputFile grids)"

definition convert_vdb_file :: "('g, 'h) env \<Rightarrow> opts \<Rightarrow> string \<Rightarrow> string \<Rightarrow> ('g, 'h, unit) run" where
  "convert_vdb_file env p outputFile inputFile =
     and_then (call (FileOpen inputFile) (file_open env inputFile))
       (\<lambda>_. if gridName p = [] then
               and_then (call (GetGrids inputFile) (getGrids env inputFile))
                 (\<lambda>grids. convert_grids env p outputFile grids)
             else
               and_then (call (FileReadGrid inputFile (gridName p))
                              (file_readGrid env inputFile (gridName p)))
                 (\<lambda>grid. convert_grid env p outputFile grid))"

fun to_nano_loop :: "('g, 'h) env \<Rightarrow> opts \<Rightarrow> string \<Rightarrow> string list \<Rightarrow> ('g, 'h, unit) run" where
  "to_nano_loop env p outputFile [] = ret ()"
| "to_nano_loop env p outputFile (inputFile # rest) =
     (if ext_of inputFile \<noteq> ''vdb'' then stop (usage ExpectedVdbInputs)
      else and_then (convert_vdb_file env p outputFile inputFile)
             (\<lambda>_. to_nano_loop env p outputFile rest))"

definition to_nano :: "('g, 'h) env \<Rightarrow> opts \<Rightarrow> string \<Rightarrow> string list \<Rightarrow> ('g, 'h, unit) run" where
  "to_nano env p outputFile inputs =
     and_then (emit (OpenOfstream outputFile)) (\<lambda>_. to_nano_loop env p outputFile inputs)"

subsection \<open>NanoVDB to OpenVDB\<close>

text \<open>\<^verbatim>\<open>grids->push_back(nanoToOpenVDB(h))\<close>.\<close>

definition translate_handle :: "('g, 'h) env \<Rightarrow> 'g list \<Rightarrow> 'h \<Rightarrow> ('g, 'h, 'g list) run" where
  "translate_handle env grids h =
     and_then (call (NanoToOpen h) (nanoToOpenVDB env h)) (\<lambda>g. ret (grids @ [g]))"

fun translate_handles :: "('g, 'h) env \<Rightarrow> 'g list \<Rightarrow> 'h list \<Rightarrow> ('g, 'h, 'g list) run" where
  "translate_handles env grids [] = ret grids"
| "translate_handles env grids (h # hs) =
     and_then (translate_handle env grids h) (\<lambda>grids'. translate_handles env grids' hs)"

definition read_nvdb_file :: "('g, 'h) env \<Rightarrow> opts \<Rightarrow> 'g list \<Rightarrow> string \<Rightarrow> ('g, 'h, 'g list) run" where
  "read_nvdb_file env p grids inputFile =
     (if gridName p = [] then
        and_then (call (ReadGrids inputFile) (readGrids env inputFile (verbose p)))
          (\<lambda>handles. translate_handles env grids handles)
      else
        and_then (call (ReadGrid inputFile (gridName p)) (readGrid env inputFile (gridName p)))
          (\<lambda>handle. case handle of
                       None \<Rightarrow> stop (usage (GridNotFound (gridName p)))
                     | Some h \<Rightarrow> translate_handle env grids h))"

fun to_open_loop :: "('g, 'h) env \<Rightarrow> opts \<Rightarrow> 'g list \<Rightarrow> string list \<Rightarrow> ('g, 'h, 'g list) run" where
  "to_open_loop env p grids [] = ret grids"
| "to_open_loop env p grids (inputFile # rest) =
     (if ext_of inputFile \<noteq> ''nvdb'' then stop (usage ExpectedNvdbInputs)
      else and_then (read_nvdb_file env p grids inputFile)
             (\<lambda>grids'. to_open_loop env p grids' rest))"

definition to_open :: "('g, 'h) env \<Rightarrow> opts \<Rightarrow> string \<Rightarrow> string list \<Rightarrow> ('g, 'h, unit) run" where
  "to_open env p outputFile inputs =
     and_then (to_open_loop env p [] inputs)
       (\<lambda>grids. call (FileWrite outputFile grids) (file_write env outputFile grids))"

subsection \<open>The driver\<close>

text \<open>The answers on which the overwrite goes ahead.\<close>

definition affirmative :: "string \<Rightarrow> bool" where
  "affirmative a \<longleftrightarrow>
     \<not> (a \<noteq> [] \<and> a \<noteq> ''Y'' \<and> a \<noteq> ''y'' \<and> a \<noteq> ''yes'' \<and> a \<noteq> ''YES'')"

definition overwrite_guard :: "('g, 'h) env \<Rightarrow> opts \<Rightarrow> string \<Rightarrow> ('g, 'h, unit) run" where
  "overwrite_guard env p outputFile =
     (if \<not> overwrite p then
        and_then (emit (PeekOutput outputFile))
          (\<lambda>_. if peek_nonempty env outputFile then
                  and_then (emit (Prompt outputFile))
                    (\<lambda>_. if \<not> affirmative (answer env) then stop Declined else ret ())
                else ret ())
      else ret ())"

text \<open>
  The direction: \<open>True\<close> is OpenVDB to NanoVDB. In \<open>run_main\<close> below, \<open>inputs\<close> is
  \<^verbatim>\<open>fileNames\<close> after \<^verbatim>\<open>fileNames.pop_back()\<close>.
\<close>

definition direction :: "string \<Rightarrow> ending + bool" where
  "direction ext =
     (if ext = ''nvdb'' then Inr True
      else if ext \<noteq> ''vdb'' then Inl (usage (UnrecognizedExtension ext))
      else Inr False)"

definition conversion :: "('g, 'h) env \<Rightarrow> opts \<Rightarrow> bool \<Rightarrow> string \<Rightarrow> string list \<Rightarrow> ('g, 'h, unit) run" where
  "conversion env p toNanoVDB outputFile inputs =
     and_then (emit Initialize)
       (\<lambda>_. if toNanoVDB then to_nano env p outputFile inputs
             else to_open env p outputFile inputs)"

definition run_main :: "('g, 'h) env \<Rightarrow> string list \<Rightarrow> ('g, 'h, unit) run" where
  "run_main env args =
     (case parse_args init_opts args of
        Inl (m, st) \<Rightarrow> stop (UsageExit m st)
      | Inr p \<Rightarrow>
          if length (fileNames p) < 2 then stop (usage TooFewFiles)
          else
            let outputFile = last (fileNames p);
                ext = ext_of outputFile;
                inputs = butlast (fileNames p)
            in (case direction ext of
                  Inl e \<Rightarrow> stop e
                | Inr toNanoVDB \<Rightarrow>
                    and_then (overwrite_guard env p outputFile)
                      (\<lambda>_. conversion env p toNanoVDB outputFile inputs)))"

text \<open>What the process leaves behind.\<close>

record ('g, 'h) outcome =
  status :: nat
  ending :: "ending option"
  trace :: "('g, 'h) event list"

fun exit_status :: "ending \<Rightarrow> nat" where
  "exit_status (UsageExit m st) = st"
| "exit_status Declined = EXIT_SUCCESS"
| "exit_status (Caught m) = EXIT_FAILURE"

text \<open>\<open>ending = None\<close>: \<^verbatim>\<open>main\<close> returned \<^verbatim>\<open>exitStatus\<close>, still \<^verbatim>\<open>EXIT_SUCCESS\<close>.\<close>

definition finish :: "('g, 'h, unit) run \<Rightarrow> ('g, 'h) outcome" where
  "finish r =
     (case r of
        (tr, Inl e) \<Rightarrow> \<lparr>status = exit_status e, ending = Some e, trace = tr\<rparr>
      | (tr, Inr _) \<Rightarrow> \<lparr>status = EXIT_SUCCESS, ending = None, trace = tr\<rparr>)"

definition main :: "('g, 'h) env \<Rightarrow> string list \<Rightarrow> ('g, 'h) outcome" where
  "main env args = finish (run_main env args)"

subsection \<open>Reading a trace\<close>

text \<open>
  The grids a trace has translated to OpenVDB, in order: the results of its
  \<^verbatim>\<open>nanoToOpenVDB\<close> calls that returned.
\<close>

fun translated :: "('g, 'h) env \<Rightarrow> ('g, 'h) event list \<Rightarrow> 'g list" where
  "translated env [] = []"
| "translated env (NanoToOpen h # tr) =
     (case nanoToOpenVDB env h of
        Returns g \<Rightarrow> g # translated env tr
      | Throws m \<Rightarrow> translated env tr)"
| "translated env (e # tr) = translated env tr"

text \<open>
  A trace writes each grid as soon as it is translated: a call of \<^verbatim>\<open>openToNanoVDB\<close> that
  returns a handle is followed at once by the write of that handle to the output stream, one
  that throws is the last operation, and no write comes without its translation.
\<close>

fun streamed :: "('g, 'h) env \<Rightarrow> opts \<Rightarrow> string \<Rightarrow> ('g, 'h) event list \<Rightarrow> bool" where
  "streamed env p outputFile [] = True"
| "streamed env p outputFile (OpenToNano g # tr) =
     (case openToNanoVDB env g (sMode p) (cMode p) (verbose p) of
        Throws m \<Rightarrow> tr = []
      | Returns h \<Rightarrow>
          (case tr of
             [] \<Rightarrow> False
           | e # tr' \<Rightarrow> e = WriteGrid outputFile h (codec p) \<and> streamed env p outputFile tr'))"
| "streamed env p outputFile (WriteGrid path h c # tr) = False"
| "streamed env p outputFile (e # tr) = streamed env p outputFile tr"

text \<open>The operations of the one direction and of the other.\<close>

fun to_nano_op :: "('g, 'h) event \<Rightarrow> bool" where
  "to_nano_op (OpenOfstream path) = True"
| "to_nano_op (FileOpen path) = True"
| "to_nano_op (GetGrids path) = True"
| "to_nano_op (FileReadGrid path n) = True"
| "to_nano_op (OpenToNano g) = True"
| "to_nano_op (WriteGrid path h c) = True"
| "to_nano_op e = False"

fun to_open_op :: "('g, 'h) event \<Rightarrow> bool" where
  "to_open_op (ReadGrids path) = True"
| "to_open_op (ReadGrid path n) = True"
| "to_open_op (NanoToOpen h) = True"
| "to_open_op (FileWrite path gs) = True"
| "to_open_op e = False"

text \<open>
  The invariant behind \<open>streamed\<close>: the trace of a piece of the run is streamed, and when the
  piece hands on to the next one, a streamed trace may follow it.
\<close>

definition keeps_streamed ::
  "('g, 'h) env \<Rightarrow> opts \<Rightarrow> string \<Rightarrow> ('g, 'h, 'a) run \<Rightarrow> bool" where
  "keeps_streamed env p outputFile r \<longleftrightarrow>
     streamed env p outputFile (fst r) \<and>
     (\<forall>x tr. snd r = Inr x \<longrightarrow> streamed env p outputFile tr \<longrightarrow>
        streamed env p outputFile (fst r @ tr))"

subsection \<open>Case variants\<close>

text \<open>
  Following the words of the claims, not the code: \<open>v\<close> is a case variant of the lower-case
  word \<open>w\<close> when it has the letters of \<open>w\<close> in the same order, each in lower or in upper case.
  \<open>upper_of\<close> is the capital of a letter from a to z; \<open>lower_letters w\<close> says that \<open>w\<close> is made
  of the letters a to z.
\<close>

definition upper_of :: "char \<Rightarrow> char" where
  "upper_of c = (let n = (of_char c :: nat) in if 97 \<le> n \<and> n \<le> 122 then char_of (n - 32) else c)"

definition case_variant :: "string \<Rightarrow> string \<Rightarrow> bool" where
  "case_variant v w \<longleftrightarrow> list_all2 (\<lambda>a b. a = b \<or> a = upper_of b) v w"

definition lower_letters :: "string \<Rightarrow> bool" where
  "lower_letters w \<longleftrightarrow> list_all (\<lambda>b. 97 \<le> (of_char b :: nat) \<and> (of_char b :: nat) \<le> 122) w"

subsection \<open>An example world\<close>

text \<open>
  Grids and handles are their names. There are two OpenVDB files, \<^verbatim>\<open>a.vdb\<close> with the grid
  \<^verbatim>\<open>density\<close> and \<^verbatim>\<open>b.vdb\<close> with \<^verbatim>\<open>temperature\<close> and \<^verbatim>\<open>velocity\<close>, the NanoVDB files
  \<^verbatim>\<open>a.nvdb\<close> and \<^verbatim>\<open>b.nvdb\<close> with the same grids, and two non-empty files \<^verbatim>\<open>old.vdb\<close> and
  \<^verbatim>\<open>old.nvdb\<close>. The user types \<^verbatim>\<open>n\<close> at the prompt.
\<close>

definition example_env :: "(string, string) env" where
  "example_env =
     \<lparr>peek_nonempty = (\<lambda>path. path = ''old.vdb'' \<or> path = ''old.nvdb''),
      answer = ''n'',
      file_open = (\<lambda>path. if path = ''a.vdb'' \<or> path = ''b.vdb'' then Returns ()
                           else Throws ''cannot open''),
      getGrids = (\<lambda>path. if path = ''a.vdb'' then Returns [''density'']
                          else Returns [''temperature'', ''velocity'']),
      file_readGrid = (\<lambda>path name. if path = ''a.vdb'' \<and> name = ''density'' then Returns name
                                    else Throws ''no such grid''),
      openToNanoVDB = (\<lambda>grid s c v. Returns grid),
      writeGrid = (\<lambda>path handle c. Returns ()),
      readGrids = (\<lambda>path v. if path = ''a.nvdb'' then Returns [''density'']
                             else if path = ''b.nvdb'' then Returns [''temperature'', ''velocity'']
                             else Throws ''cannot open''),
      readGrid = (\<lambda>path name. if path = ''a.nvdb'' \<and> name = ''density'' then Returns (Some name)
                               else Returns None),
      nanoToOpenVDB = (\<lambda>handle. Returns handle),
      file_write = (\<lambda>path grids. Returns ())\<rparr>"

section \<open>Properties\<close>

subsection \<open>Sequencing\<close>

lemma and_then_Inl [simp]: "and_then (tr, Inl e) k = (tr, Inl e)"
  by (simp add: and_then_def)

lemma and_then_Inr [simp]: "and_then (tr, Inr x) k = (tr @ fst (k x), snd (k x))"
  by (simp add: and_then_def split: prod.splits)

lemma and_then_ret [simp]: "and_then (ret x) k = k x"
  by (simp add: ret_def)

lemma and_then_stop [simp]: "and_then (stop e) k = stop e"
  by (simp add: stop_def)

lemma and_then_emit [simp]: "and_then (emit ev) k = (ev # fst (k ()), snd (k ()))"
  by (simp add: emit_def)

lemma and_then_call_Throws [simp]:
  "and_then (call ev (Throws m)) k = ([ev], Inl (Caught m))"
  by (simp add: call_def)

lemma and_then_call_Returns [simp]:
  "and_then (call ev (Returns x)) k = (ev # fst (k x), snd (k x))"
  by (simp add: call_def)

lemma fst_and_then:
  "fst (and_then m k) = (case snd m of Inl e \<Rightarrow> fst m | Inr x \<Rightarrow> fst m @ fst (k x))"
  by (cases m) (auto split: sum.splits)

lemma snd_and_then:
  "snd (and_then m k) = (case snd m of Inl e \<Rightarrow> Inl e | Inr x \<Rightarrow> snd (k x))"
  by (cases m) (auto split: sum.splits)

lemma set_and_then: "set (fst (and_then m k)) \<subseteq> set (fst m) \<union> (\<Union>x. set (fst (k x)))"
  by (cases m) (auto simp: fst_and_then split: sum.splits)

lemma events_and_then:
  assumes "\<forall>e\<in>set (fst m). P e" and "\<And>x. \<forall>e\<in>set (fst (k x)). P e"
  shows "\<forall>e\<in>set (fst (and_then m k)). P e"
  using assms set_and_then [of m k] by blast

lemma events_call: "P ev \<Longrightarrow> \<forall>e\<in>set (fst (call ev r)). P e"
  by (cases r) (simp_all add: call_def)

lemma snd_and_then_Inr_iff:
  "snd (and_then m k) = Inr y \<longleftrightarrow> (\<exists>x. snd m = Inr x \<and> snd (k x) = Inr y)"
  by (cases m; cases "snd m") auto

lemma fst_and_then_Inr: "snd m = Inr x \<Longrightarrow> fst (and_then m k) = fst m @ fst (k x)"
  by (simp add: fst_and_then)

lemma fst_call [simp]: "fst (call ev r) = [ev]"
  by (cases r) (simp_all add: call_def)

lemma snd_call_Inr [simp]: "snd (call ev r) = Inr x \<longleftrightarrow> r = Returns x"
  by (cases r) (simp_all add: call_def)

lemma fst_ret [simp]: "fst (ret x) = []"
  by (simp add: ret_def)

lemma snd_ret [simp]: "snd (ret x) = Inr x"
  by (simp add: ret_def)

lemma fst_stop [simp]: "fst (stop e) = []"
  by (simp add: stop_def)

lemma snd_stop [simp]: "snd (stop e) = Inl e"
  by (simp add: stop_def)

lemma events_ret: "\<forall>e\<in>set (fst (ret x)). P e"
  by simp

lemma events_stop: "\<forall>e\<in>set (fst (stop x)). P e"
  by simp

lemma and_then_assoc: "and_then (and_then m k) h = and_then m (\<lambda>x. and_then (k x) h)"
  by (cases m; cases "snd m") (auto simp: and_then_def split: prod.splits sum.splits)

lemma endings_and_then:
  assumes "\<forall>e. snd m = Inl e \<longrightarrow> P e" and "\<And>x. \<forall>e. snd (k x) = Inl e \<longrightarrow> P e"
  shows "\<forall>e. snd (and_then m k) = Inl e \<longrightarrow> P e"
  using assms by (cases m; cases "snd m") auto

lemma endings_call: "(\<And>m. P (Caught m)) \<Longrightarrow> \<forall>e. snd (call ev r) = Inl e \<longrightarrow> P e"
  by (cases r) (auto simp: call_def)

lemma endings_ret: "\<forall>e. snd (ret x) = Inl e \<longrightarrow> P e"
  by simp

lemma trace_finish [simp]: "trace (finish r) = fst r"
  by (cases r; cases "snd r") (auto simp: finish_def)

lemma status_finish:
  "status (finish r) = (case snd r of Inl e \<Rightarrow> exit_status e | Inr x \<Rightarrow> EXIT_SUCCESS)"
  by (cases r; cases "snd r") (auto simp: finish_def)

lemma ending_finish:
  "ending (finish r) = (case snd r of Inl e \<Rightarrow> Some e | Inr x \<Rightarrow> None)"
  by (cases r; cases "snd r") (auto simp: finish_def)

lemma finish_stop:
  "finish (stop e) = \<lparr>status = exit_status e, ending = Some e, trace = []\<rparr>"
  by (simp add: finish_def stop_def)

subsection \<open>The argument parser\<close>

lemma parse_arg_append_case:
  "case parse_arg p arg rest of
     Inl e \<Rightarrow> True
   | Inr (p', rest') \<Rightarrow> parse_arg p arg (rest @ ys) = Inr (p', rest' @ ys)"
  unfolding parse_arg_def Let_def by (simp split: list.split)

lemma parse_arg_append_imp:
  "parse_arg p arg rest = Inr (p', rest') \<longrightarrow> parse_arg p arg (rest @ ys) = Inr (p', rest' @ ys)"
  using parse_arg_append_case [of p arg rest ys] by auto

lemma parse_args_append:
  "parse_args p xs = Inr q \<Longrightarrow> parse_args p (xs @ ys) = parse_args q ys"
proof (induction p xs rule: parse_args.induct)
  case (1 p)
  then show ?case by simp
next
  case (2 p arg rest)
  show ?case
  proof (cases "parse_arg p arg rest")
    case (Inl e)
    with "2.prems" show ?thesis by simp
  next
    case (Inr x)
    obtain p' rest' where x: "x = (p', rest')" by (cases x)
    from Inr x have step: "parse_arg p arg (rest @ ys) = Inr (p', rest' @ ys)"
      using parse_arg_append_imp by simp
    from "2.prems" Inr x have "parse_args p' rest' = Inr q" by simp
    with "2.IH" [OF Inr x [symmetric]] have "parse_args p' (rest' @ ys) = parse_args q ys" .
    with step show ?thesis by simp
  qed
qed

lemma parse_arg_status_case:
  "case parse_arg p arg rest of
     Inl (m, st) \<Rightarrow> (m = Help \<and> st = EXIT_SUCCESS) \<or> (m \<noteq> Help \<and> st = EXIT_FAILURE)
   | Inr x \<Rightarrow> True"
  unfolding parse_arg_def Let_def by (simp split: list.split)

lemma parse_arg_status_imp:
  "parse_arg p arg rest = Inl (m, st) \<longrightarrow>
     (m = Help \<and> st = EXIT_SUCCESS) \<or> (m \<noteq> Help \<and> st = EXIT_FAILURE)"
  using parse_arg_status_case [of p arg rest] by auto

lemma parse_args_status:
  "parse_args p xs = Inl (m, st) \<Longrightarrow>
     (m = Help \<and> st = EXIT_SUCCESS) \<or> (m \<noteq> Help \<and> st = EXIT_FAILURE)"
proof (induction p xs rule: parse_args.induct)
  case (1 p)
  then show ?case by simp
next
  case (2 p arg rest)
  show ?case
  proof (cases "parse_arg p arg rest")
    case (Inl e)
    with "2.prems" have "parse_arg p arg rest = Inl (m, st)" by simp
    then show ?thesis using parse_arg_status_imp by blast
  next
    case (Inr x)
    obtain p' rest' where x: "x = (p', rest')" by (cases x)
    from "2.prems" Inr x have "parse_args p' rest' = Inl (m, st)" by simp
    with "2.IH" [OF Inr x [symmetric]] show ?thesis .
  qed
qed

lemma parse_arg_frame_case:
  "case parse_arg p arg rest of
     Inl e \<Rightarrow> True
   | Inr (p', rest') \<Rightarrow>
       set rest' \<subseteq> set rest \<and>
       (arg \<noteq> ''-b'' \<and> arg \<noteq> ''--blosc'' \<and> arg \<noteq> ''-z'' \<and> arg \<noteq> ''--zip'' \<longrightarrow> codec p' = codec p) \<and>
       (arg \<noteq> ''-c'' \<and> arg \<noteq> ''--checksum'' \<longrightarrow> cMode p' = cMode p) \<and>
       (arg \<noteq> ''-s'' \<and> arg \<noteq> ''--stats'' \<longrightarrow> sMode p' = sMode p) \<and>
       (arg \<noteq> ''-g'' \<and> arg \<noteq> ''--grid'' \<longrightarrow> gridName p' = gridName p)"
  unfolding parse_arg_def Let_def by (simp split: list.split add: subset_insertI2)

lemma parse_arg_frame:
  assumes "parse_arg p arg rest = Inr (p', rest')"
  shows "set rest' \<subseteq> set rest"
    and "arg \<notin> {''-b'', ''--blosc'', ''-z'', ''--zip''} \<Longrightarrow> codec p' = codec p"
    and "arg \<notin> {''-c'', ''--checksum''} \<Longrightarrow> cMode p' = cMode p"
    and "arg \<notin> {''-s'', ''--stats''} \<Longrightarrow> sMode p' = sMode p"
    and "arg \<notin> {''-g'', ''--grid''} \<Longrightarrow> gridName p' = gridName p"
  using parse_arg_frame_case [where p = p and arg = arg and rest = rest] assms by simp_all

lemma parse_args_frame:
  assumes "parse_args q ys = Inr r"
  shows "(set ys \<inter> {''-b'', ''--blosc'', ''-z'', ''--zip''} = {} \<longrightarrow> codec r = codec q) \<and>
         (set ys \<inter> {''-c'', ''--checksum''} = {} \<longrightarrow> cMode r = cMode q) \<and>
         (set ys \<inter> {''-s'', ''--stats''} = {} \<longrightarrow> sMode r = sMode q) \<and>
         (set ys \<inter> {''-g'', ''--grid''} = {} \<longrightarrow> gridName r = gridName q)"
  using assms
proof (induction q ys rule: parse_args.induct)
  case (1 p)
  then show ?case by simp
next
  case (2 p arg rest)
  from "2.prems" obtain p' rest' where step: "parse_arg p arg rest = Inr (p', rest')"
    and r: "parse_args p' rest' = Inr r"
    by (cases "parse_arg p arg rest") auto
  note ih = "2.IH" [OF step refl r]
  note fr = parse_arg_frame [OF step]
  show ?case
  proof (intro conjI impI)
    assume "set (arg # rest) \<inter> {''-b'', ''--blosc'', ''-z'', ''--zip''} = {}"
    with fr(1) have "arg \<notin> {''-b'', ''--blosc'', ''-z'', ''--zip''}"
      and "set rest' \<inter> {''-b'', ''--blosc'', ''-z'', ''--zip''} = {}"
      by auto
    with ih fr(2) show "codec r = codec p" by simp
  next
    assume "set (arg # rest) \<inter> {''-c'', ''--checksum''} = {}"
    with fr(1) have "arg \<notin> {''-c'', ''--checksum''}"
      and "set rest' \<inter> {''-c'', ''--checksum''} = {}"
      by auto
    with ih fr(3) show "cMode r = cMode p" by simp
  next
    assume "set (arg # rest) \<inter> {''-s'', ''--stats''} = {}"
    with fr(1) have "arg \<notin> {''-s'', ''--stats''}"
      and "set rest' \<inter> {''-s'', ''--stats''} = {}"
      by auto
    with ih fr(4) show "sMode r = sMode p" by simp
  next
    assume "set (arg # rest) \<inter> {''-g'', ''--grid''} = {}"
    with fr(1) have "arg \<notin> {''-g'', ''--grid''}"
      and "set rest' \<inter> {''-g'', ''--grid''} = {}"
      by auto
    with ih fr(5) show "gridName r = gridName p" by simp
  qed
qed

lemma parse_arg_checksum:
  assumes "c = ''-c'' \<or> c = ''--checksum''"
  shows "parse_arg p c (v # rest) =
     (if map tolower v = ''none'' then Inr (p\<lparr>cMode := CM_Disable\<rparr>, rest)
      else if map tolower v = ''partial'' then Inr (p\<lparr>cMode := CM_Partial\<rparr>, rest)
      else if map tolower v = ''full'' then Inr (p\<lparr>cMode := CM_Full\<rparr>, rest)
      else Inl (BadChecksumMode, EXIT_FAILURE))"
  using assms by (elim disjE; simp add: parse_arg_def Let_def)

lemma parse_arg_stats:
  assumes "c = ''-s'' \<or> c = ''--stats''"
  shows "parse_arg p c (v # rest) =
     (if map tolower v = ''none'' then Inr (p\<lparr>sMode := SM_Disable\<rparr>, rest)
      else if map tolower v = ''bbox'' then Inr (p\<lparr>sMode := SM_BBox\<rparr>, rest)
      else if map tolower v = ''extrema'' then Inr (p\<lparr>sMode := SM_MinMax\<rparr>, rest)
      else if map tolower v = ''all'' then Inr (p\<lparr>sMode := SM_All\<rparr>, rest)
      else Inl (BadStatsMode, EXIT_FAILURE))"
  using assms by (elim disjE; simp add: parse_arg_def Let_def)

lemma parse_arg_grid:
  assumes "c = ''-g'' \<or> c = ''--grid''"
  shows "parse_arg p c (v # rest) = Inr (p\<lparr>gridName := v\<rparr>, rest)"
  using assms by (elim disjE; simp add: parse_arg_def)

lemma parse_arg_blosc:
  assumes "c = ''-b'' \<or> c = ''--blosc''"
  shows "parse_arg p c rest = Inr (p\<lparr>codec := BLOSC\<rparr>, rest)"
  using assms by (elim disjE; simp add: parse_arg_def)

lemma parse_arg_zip:
  assumes "c = ''-z'' \<or> c = ''--zip''"
  shows "parse_arg p c rest = Inr (p\<lparr>codec := ZIP\<rparr>, rest)"
  using assms by (elim disjE; simp add: parse_arg_def)

lemma parse_arg_file:
  "a \<noteq> [] \<Longrightarrow> hd a \<noteq> CHR ''-'' \<Longrightarrow>
     parse_arg p a rest = Inr (p\<lparr>fileNames := fileNames p @ [a]\<rparr>, rest)"
  by (simp add: parse_arg_def)

lemma parse_args_files:
  "\<forall>a\<in>set files. a \<noteq> [] \<and> hd a \<noteq> CHR ''-'' \<Longrightarrow>
     parse_args p files = Inr (p\<lparr>fileNames := fileNames p @ files\<rparr>)"
  by (induction files arbitrary: p) (simp_all add: parse_arg_file)

lemma option_value_selected:
  assumes "\<And>r. parse_arg p c (v # r) = Inr (p', r)"
    and "\<forall>a\<in>set files. a \<noteq> [] \<and> hd a \<noteq> CHR ''-''"
  shows "parse_args p (c # v # rest) = parse_args p' rest \<and>
         parse_args p (c # v # files) = Inr (p'\<lparr>fileNames := fileNames p' @ files\<rparr>)"
  by (simp add: assms(1) parse_args_files [OF assms(2)])

subsection \<open>Lower case and case variants\<close>

lemma tolower_lower_letter:
  assumes "97 \<le> (of_char b :: nat)" and "(of_char b :: nat) \<le> 122"
  shows "tolower b = b \<and> tolower (upper_of b) = b"
proof -
  define n where "n = (of_char b :: nat)"
  from assms have n: "97 \<le> n" "n \<le> 122"
    by (simp_all add: n_def)
  then have up: "65 \<le> n - 32" "n - 32 \<le> 90" "n - 32 + 32 = n" "(n - 32) mod 256 = n - 32"
    by simp_all
  from n have low: "tolower b = b"
    by (simp add: tolower_def Let_def n_def [symmetric])
  from n have "upper_of b = char_of (n - 32)"
    by (simp add: upper_of_def Let_def n_def [symmetric])
  moreover have "(of_char (char_of (n - 32)) :: nat) = n - 32"
    using up(4) by simp
  moreover have "char_of n = b"
    by (simp add: n_def)
  ultimately have "tolower (upper_of b) = b"
    using up(1-3) by (simp add: tolower_def Let_def)
  with low show ?thesis by simp
qed

lemma case_variant_lower:
  "case_variant v w \<Longrightarrow> lower_letters w \<Longrightarrow> map tolower v = w"
  unfolding case_variant_def lower_letters_def
  by (induction v w rule: list_all2_induct) (auto simp: tolower_lower_letter)

lemma lower_case_variant:
  "map tolower v = w \<Longrightarrow> lower_letters w \<Longrightarrow> case_variant v w"
proof (induction v arbitrary: w)
  case Nil
  then show ?case by (simp add: case_variant_def)
next
  case (Cons a v)
  then obtain b w' where w: "w = b # w'" and b: "tolower a = b" and w': "map tolower v = w'"
    by auto
  from Cons.prems w have lw: "lower_letters w'"
    by (simp add: lower_letters_def)
  have "a = b \<or> a = upper_of b"
  proof (cases "65 \<le> (of_char a :: nat) \<and> (of_char a :: nat) \<le> 90")
    case True
    with b have "b = char_of (of_char a + 32 :: nat)"
      by (simp add: tolower_def Let_def)
    with True have "upper_of b = a"
      by (simp add: upper_of_def Let_def)
    then show ?thesis by simp
  next
    case False
    with b show ?thesis by (auto simp: tolower_def Let_def)
  qed
  with Cons.IH [OF w' lw] w show ?case
    by (simp add: case_variant_def)
qed

subsection \<open>The loop from NanoVDB to OpenVDB\<close>

lemma translated_append: "translated env (a @ b) = translated env a @ translated env b"
  by (induction env a rule: translated.induct) (auto split: lib.splits)

lemma translate_handle_events:
  "P (NanoToOpen h) \<Longrightarrow> \<forall>e\<in>set (fst (translate_handle env grids h)). P e"
  unfolding translate_handle_def
  by (intro events_and_then events_call events_ret)

lemma translate_handles_events:
  "(\<And>h. P (NanoToOpen h)) \<Longrightarrow> \<forall>e\<in>set (fst (translate_handles env grids hs)). P e"
proof (induction hs arbitrary: grids)
  case Nil
  then show ?case by simp
next
  case (Cons h hs)
  show ?case
    unfolding translate_handles.simps
    by (intro events_and_then translate_handle_events Cons.IH Cons.prems)
qed

lemma read_nvdb_file_events:
  assumes "P (ReadGrids f)" and "P (ReadGrid f (gridName p))" and "\<And>h. P (NanoToOpen h)"
  shows "\<forall>e\<in>set (fst (read_nvdb_file env p grids f)). P e"
proof (cases "gridName p = []")
  case True
  then have "read_nvdb_file env p grids f =
      and_then (call (ReadGrids f) (readGrids env f (verbose p)))
        (\<lambda>handles. translate_handles env grids handles)"
    by (simp add: read_nvdb_file_def)
  then show ?thesis
    using assms by (simp only:) (intro events_and_then events_call translate_handles_events)
next
  case False
  have "\<forall>e\<in>set (fst (case handle of
                         None \<Rightarrow> stop (usage (GridNotFound (gridName p)))
                       | Some h \<Rightarrow> translate_handle env grids h)). P e" for handle
    using assms(3) by (cases handle) (simp_all add: translate_handle_events)
  with False assms show ?thesis
    unfolding read_nvdb_file_def by (simp only: if_False) (intro events_and_then events_call)
qed

lemma to_open_loop_events:
  assumes "\<And>f. f \<in> set inputs \<Longrightarrow> P (ReadGrids f)"
    and "\<And>f. f \<in> set inputs \<Longrightarrow> P (ReadGrid f (gridName p))"
    and "\<And>h. P (NanoToOpen h)"
  shows "\<forall>e\<in>set (fst (to_open_loop env p grids inputs)). P e"
  using assms
proof (induction inputs arbitrary: grids)
  case Nil
  then show ?case by simp
next
  case (Cons f inputs)
  show ?case
  proof (cases "ext_of f \<noteq> ''nvdb''")
    case True
    then show ?thesis by simp
  next
    case False
    have "\<forall>e\<in>set (fst (and_then (read_nvdb_file env p grids f)
             (\<lambda>grids'. to_open_loop env p grids' inputs))). P e"
      by (intro events_and_then read_nvdb_file_events Cons.IH) (simp_all add: Cons.prems)
    with False show ?thesis by simp
  qed
qed

lemma to_open_events:
  assumes "\<And>f. f \<in> set inputs \<Longrightarrow> P (ReadGrids f)"
    and "\<And>f. f \<in> set inputs \<Longrightarrow> P (ReadGrid f (gridName p))"
    and "\<And>h. P (NanoToOpen h)" and "\<And>gs. P (FileWrite out gs)"
  shows "\<forall>e\<in>set (fst (to_open env p out inputs)). P e"
  unfolding to_open_def
  by (intro events_and_then events_call to_open_loop_events assms)

lemma translate_handle_result:
  "snd (translate_handle env grids h) = Inr gs \<Longrightarrow>
     gs = grids @ translated env (fst (translate_handle env grids h))"
  unfolding translate_handle_def
  by (cases "nanoToOpenVDB env h") (simp_all add: ret_def)

lemma translate_handles_result:
  "snd (translate_handles env grids hs) = Inr gs \<Longrightarrow>
     gs = grids @ translated env (fst (translate_handles env grids hs))"
proof (induction hs arbitrary: grids gs)
  case Nil
  then show ?case by (simp add: ret_def)
next
  case (Cons h hs)
  from Cons.prems obtain g1 where
    g1: "snd (translate_handle env grids h) = Inr g1" and
    g2: "snd (translate_handles env g1 hs) = Inr gs"
    by (auto simp: snd_and_then_Inr_iff)
  from g1 have "fst (translate_handles env grids (h # hs)) =
      fst (translate_handle env grids h) @ fst (translate_handles env g1 hs)"
    by (simp add: fst_and_then_Inr)
  with translate_handle_result [OF g1] Cons.IH [OF g2] show ?case
    by (simp add: translated_append)
qed

lemma read_nvdb_file_result:
  assumes "snd (read_nvdb_file env p grids f) = Inr gs"
  shows "gs = grids @ translated env (fst (read_nvdb_file env p grids f)) \<and>
         (ReadGrids f \<in> set (fst (read_nvdb_file env p grids f)) \<or>
          ReadGrid f (gridName p) \<in> set (fst (read_nvdb_file env p grids f)))"
proof (cases "gridName p = []")
  case True
  with assms obtain hs where hs: "readGrids env f (verbose p) = Returns hs"
    and r: "snd (translate_handles env grids hs) = Inr gs"
    by (auto simp: read_nvdb_file_def snd_and_then_Inr_iff)
  from True hs have "fst (read_nvdb_file env p grids f) =
      ReadGrids f # fst (translate_handles env grids hs)"
    by (simp add: read_nvdb_file_def)
  with translate_handles_result [OF r] show ?thesis by simp
next
  case False
  with assms obtain ho where ho: "readGrid env f (gridName p) = Returns ho"
    and r: "snd (case ho of None \<Rightarrow> stop (usage (GridNotFound (gridName p)))
                   | Some h \<Rightarrow> translate_handle env grids h) = Inr gs"
    by (auto simp: read_nvdb_file_def snd_and_then_Inr_iff)
  from r obtain h where h: "ho = Some h" and r': "snd (translate_handle env grids h) = Inr gs"
    by (cases ho) (simp_all add: stop_def)
  from False ho h have "fst (read_nvdb_file env p grids f) =
      ReadGrid f (gridName p) # fst (translate_handle env grids h)"
    by (simp add: read_nvdb_file_def)
  with translate_handle_result [OF r'] show ?thesis by simp
qed

lemma to_open_loop_result:
  "snd (to_open_loop env p grids inputs) = Inr gs \<Longrightarrow>
     gs = grids @ translated env (fst (to_open_loop env p grids inputs)) \<and>
     (\<forall>f\<in>set inputs. ext_of f = ''nvdb'' \<and>
        (ReadGrids f \<in> set (fst (to_open_loop env p grids inputs)) \<or>
         ReadGrid f (gridName p) \<in> set (fst (to_open_loop env p grids inputs))))"
proof (induction inputs arbitrary: grids gs)
  case Nil
  then show ?case by (simp add: ret_def)
next
  case (Cons f inputs)
  from Cons.prems have ext: "ext_of f = ''nvdb''"
    by (auto simp: stop_def split: if_splits)
  with Cons.prems obtain g1 where
    g1: "snd (read_nvdb_file env p grids f) = Inr g1" and
    g2: "snd (to_open_loop env p g1 inputs) = Inr gs"
    by (auto simp: snd_and_then_Inr_iff)
  from ext g1 have tr: "fst (to_open_loop env p grids (f # inputs)) =
      fst (read_nvdb_file env p grids f) @ fst (to_open_loop env p g1 inputs)"
    by (simp add: fst_and_then_Inr)
  from read_nvdb_file_result [OF g1] Cons.IH [OF g2] ext show ?case
    unfolding tr by (auto simp: translated_append)
qed

lemma to_open_loop_no_match:
  assumes "inputs \<noteq> []" and "gridName p \<noteq> []"
    and "\<forall>f\<in>set inputs. \<forall>h. readGrid env f (gridName p) \<noteq> Returns (Some h)"
  shows "\<exists>e. snd (to_open_loop env p grids inputs) = Inl e \<and> exit_status e = EXIT_FAILURE"
proof -
  from assms(1) obtain f rest where inputs: "inputs = f # rest"
    by (cases inputs) auto
  show ?thesis
  proof (cases "ext_of f \<noteq> ''nvdb''")
    case True
    with inputs show ?thesis by (simp add: usage_def)
  next
    case False
    from assms(3) inputs have nm: "\<forall>h. readGrid env f (gridName p) \<noteq> Returns (Some h)"
      by simp
    have "\<exists>e. snd (read_nvdb_file env p grids f) = Inl e \<and> exit_status e = EXIT_FAILURE"
    proof (cases "readGrid env f (gridName p)")
      case (Throws m)
      with assms(2) show ?thesis by (simp add: read_nvdb_file_def)
    next
      case (Returns ho)
      with nm have "ho = None" by (cases ho) auto
      with Returns assms(2) show ?thesis by (simp add: read_nvdb_file_def usage_def)
    qed
    then obtain e where "snd (read_nvdb_file env p grids f) = Inl e"
      and "exit_status e = EXIT_FAILURE"
      by blast
    with False inputs show ?thesis
      by (simp add: snd_and_then)
  qed
qed

subsection \<open>The loop from OpenVDB to NanoVDB\<close>

lemma convert_grid_events:
  assumes "P (OpenToNano g)" and "\<And>h. P (WriteGrid out h (codec p))"
  shows "\<forall>e\<in>set (fst (convert_grid env p out g)). P e"
  unfolding convert_grid_def using assms
  by (intro events_and_then events_call)

lemma convert_grids_events:
  assumes "\<And>g. P (OpenToNano g)" and "\<And>h. P (WriteGrid out h (codec p))"
  shows "\<forall>e\<in>set (fst (convert_grids env p out gs)). P e"
proof (induction gs)
  case Nil
  then show ?case by simp
next
  case (Cons g gs)
  show ?case
    unfolding convert_grids.simps
    by (intro events_and_then convert_grid_events Cons.IH assms)
qed

lemma convert_vdb_file_events:
  assumes "P (FileOpen f)" and "P (GetGrids f)" and "P (FileReadGrid f (gridName p))"
    and "\<And>g. P (OpenToNano g)" and "\<And>h. P (WriteGrid out h (codec p))"
  shows "\<forall>e\<in>set (fst (convert_vdb_file env p out f)). P e"
proof (cases "gridName p = []")
  case True
  then have eq: "convert_vdb_file env p out f =
      and_then (call (FileOpen f) (file_open env f))
        (\<lambda>_. and_then (call (GetGrids f) (getGrids env f))
               (\<lambda>grids. convert_grids env p out grids))"
    by (simp add: convert_vdb_file_def)
  show ?thesis
    unfolding eq by (intro events_and_then events_call convert_grids_events assms)
next
  case False
  then have eq: "convert_vdb_file env p out f =
      and_then (call (FileOpen f) (file_open env f))
        (\<lambda>_. and_then (call (FileReadGrid f (gridName p)) (file_readGrid env f (gridName p)))
               (\<lambda>grid. convert_grid env p out grid))"
    by (simp add: convert_vdb_file_def)
  show ?thesis
    unfolding eq by (intro events_and_then events_call convert_grid_events assms)
qed

lemma to_nano_loop_events:
  assumes "\<And>f. f \<in> set inputs \<Longrightarrow> P (FileOpen f)"
    and "\<And>f. f \<in> set inputs \<Longrightarrow> P (GetGrids f)"
    and "\<And>f. f \<in> set inputs \<Longrightarrow> P (FileReadGrid f (gridName p))"
    and "\<And>g. P (OpenToNano g)" and "\<And>h. P (WriteGrid out h (codec p))"
  shows "\<forall>e\<in>set (fst (to_nano_loop env p out inputs)). P e"
  using assms(1-3)
proof (induction inputs)
  case Nil
  then show ?case by simp
next
  case (Cons f inputs)
  show ?case
  proof (cases "ext_of f \<noteq> ''vdb''")
    case True
    then show ?thesis by simp
  next
    case False
    have "\<forall>e\<in>set (fst (and_then (convert_vdb_file env p out f)
             (\<lambda>_. to_nano_loop env p out inputs))). P e"
      by (intro events_and_then convert_vdb_file_events Cons.IH assms(4,5))
         (simp_all add: Cons.prems)
    with False show ?thesis by simp
  qed
qed

lemma to_nano_events:
  assumes "P (OpenOfstream out)"
    and "\<And>f. f \<in> set inputs \<Longrightarrow> P (FileOpen f)"
    and "\<And>f. f \<in> set inputs \<Longrightarrow> P (GetGrids f)"
    and "\<And>f. f \<in> set inputs \<Longrightarrow> P (FileReadGrid f (gridName p))"
    and "\<And>g. P (OpenToNano g)" and "\<And>h. P (WriteGrid out h (codec p))"
  shows "\<forall>e\<in>set (fst (to_nano env p out inputs)). P e"
proof -
  have "\<forall>e\<in>set (fst (to_nano_loop env p out inputs)). P e"
    by (rule to_nano_loop_events) (use assms in auto)
  with assms(1) show ?thesis
    by (simp add: to_nano_def)
qed

lemma convert_grid_ending:
  "(\<And>m. P (Caught m)) \<Longrightarrow> \<forall>e. snd (convert_grid env p out g) = Inl e \<longrightarrow> P e"
  unfolding convert_grid_def
  by (intro endings_and_then endings_call)

lemma convert_grids_ending:
  assumes "\<And>m. P (Caught m)"
  shows "\<forall>e. snd (convert_grids env p out gs) = Inl e \<longrightarrow> P e"
proof (induction gs)
  case Nil
  show ?case unfolding convert_grids.simps by (rule endings_ret)
next
  case (Cons g gs)
  show ?case
    unfolding convert_grids.simps
    by (intro endings_and_then convert_grid_ending Cons.IH assms)
qed

lemma convert_vdb_file_ending:
  assumes "\<And>m. P (Caught m)"
  shows "\<forall>e. snd (convert_vdb_file env p out f) = Inl e \<longrightarrow> P e"
proof (cases "gridName p = []")
  case True
  then have eq: "convert_vdb_file env p out f =
      and_then (call (FileOpen f) (file_open env f))
        (\<lambda>_. and_then (call (GetGrids f) (getGrids env f))
               (\<lambda>grids. convert_grids env p out grids))"
    by (simp add: convert_vdb_file_def)
  show ?thesis
    unfolding eq by (intro endings_and_then endings_call convert_grids_ending assms)
next
  case False
  then have eq: "convert_vdb_file env p out f =
      and_then (call (FileOpen f) (file_open env f))
        (\<lambda>_. and_then (call (FileReadGrid f (gridName p)) (file_readGrid env f (gridName p)))
               (\<lambda>grid. convert_grid env p out grid))"
    by (simp add: convert_vdb_file_def)
  show ?thesis
    unfolding eq by (intro endings_and_then endings_call convert_grid_ending assms)
qed

lemma to_nano_loop_ending:
  assumes "\<forall>f\<in>set inputs. ext_of f = ''vdb''"
  shows "\<forall>e. snd (to_nano_loop env p out inputs) = Inl e \<longrightarrow> (\<exists>m. e = Caught m)"
  using assms
proof (induction inputs)
  case Nil
  show ?case unfolding to_nano_loop.simps by (rule endings_ret)
next
  case (Cons f inputs)
  then have eq: "to_nano_loop env p out (f # inputs) =
      and_then (convert_vdb_file env p out f) (\<lambda>_. to_nano_loop env p out inputs)"
    by simp
  from Cons have ih: "\<forall>e. snd (to_nano_loop env p out inputs) = Inl e \<longrightarrow> (\<exists>m. e = Caught m)"
    by simp
  show ?case
    unfolding eq by (intro endings_and_then convert_vdb_file_ending ih) blast
qed

lemma to_nano_loop_mismatch:
  "\<forall>f\<in>set pre. ext_of f = ''vdb'' \<Longrightarrow> ext_of bad \<noteq> ''vdb'' \<Longrightarrow>
     to_nano_loop env p out (pre @ bad # post) =
       and_then (to_nano_loop env p out pre) (\<lambda>_. stop (usage ExpectedVdbInputs))"
  by (induction pre) (simp_all add: and_then_assoc)

lemma keeps_streamed_ret: "keeps_streamed env p out (ret x)"
  by (simp add: keeps_streamed_def)

lemma keeps_streamed_stop: "keeps_streamed env p out (stop e)"
  by (simp add: keeps_streamed_def)

lemma keeps_streamed_and_then:
  assumes "keeps_streamed env p out m" and "\<And>x. keeps_streamed env p out (k x)"
  shows "keeps_streamed env p out (and_then m k)"
proof (cases "snd m")
  case (Inl e)
  then have "and_then m k = (fst m, Inl e)"
    by (cases m) simp
  with assms(1) show ?thesis
    by (simp add: keeps_streamed_def)
next
  case (Inr x)
  then have eq: "and_then m k = (fst m @ fst (k x), snd (k x))"
    by (cases m) simp
  from assms(1) Inr have m: "streamed env p out tr \<Longrightarrow> streamed env p out (fst m @ tr)" for tr
    by (simp add: keeps_streamed_def)
  from assms(2) [of x] have k1: "streamed env p out (fst (k x))"
    and k2: "snd (k x) = Inr y \<Longrightarrow> streamed env p out tr \<Longrightarrow>
      streamed env p out (fst (k x) @ tr)" for y tr
    by (simp_all add: keeps_streamed_def)
  show ?thesis
    unfolding keeps_streamed_def eq using m [OF k1] m [OF k2] by simp
qed

lemma keeps_streamed_call:
  assumes "\<And>tr. streamed env p out (ev # tr) = streamed env p out tr"
  shows "keeps_streamed env p out (call ev r)"
  using assms by (cases r) (simp_all add: keeps_streamed_def call_def)

lemma keeps_streamed_convert_grid: "keeps_streamed env p out (convert_grid env p out g)"
proof (cases "openToNanoVDB env g (sMode p) (cMode p) (verbose p)")
  case (Throws m)
  then show ?thesis
    by (simp add: convert_grid_def keeps_streamed_def)
next
  case (Returns h)
  then show ?thesis
    by (cases "writeGrid env out h (codec p)")
       (simp_all add: convert_grid_def keeps_streamed_def call_def)
qed

lemma keeps_streamed_convert_grids: "keeps_streamed env p out (convert_grids env p out gs)"
proof (induction gs)
  case Nil
  show ?case unfolding convert_grids.simps by (rule keeps_streamed_ret)
next
  case (Cons g gs)
  show ?case
    unfolding convert_grids.simps
    by (intro keeps_streamed_and_then keeps_streamed_convert_grid Cons.IH)
qed

lemma keeps_streamed_convert_vdb_file:
  "keeps_streamed env p out (convert_vdb_file env p out f)"
proof (cases "gridName p = []")
  case True
  then have eq: "convert_vdb_file env p out f =
      and_then (call (FileOpen f) (file_open env f))
        (\<lambda>_. and_then (call (GetGrids f) (getGrids env f))
               (\<lambda>grids. convert_grids env p out grids))"
    by (simp add: convert_vdb_file_def)
  show ?thesis
    unfolding eq
    by (intro keeps_streamed_and_then keeps_streamed_call keeps_streamed_convert_grids) simp_all
next
  case False
  then have eq: "convert_vdb_file env p out f =
      and_then (call (FileOpen f) (file_open env f))
        (\<lambda>_. and_then (call (FileReadGrid f (gridName p)) (file_readGrid env f (gridName p)))
               (\<lambda>grid. convert_grid env p out grid))"
    by (simp add: convert_vdb_file_def)
  show ?thesis
    unfolding eq
    by (intro keeps_streamed_and_then keeps_streamed_call keeps_streamed_convert_grid) simp_all
qed

lemma keeps_streamed_to_nano_loop: "keeps_streamed env p out (to_nano_loop env p out inputs)"
proof (induction inputs)
  case Nil
  show ?case unfolding to_nano_loop.simps by (rule keeps_streamed_ret)
next
  case (Cons f inputs)
  show ?case
  proof (cases "ext_of f \<noteq> ''vdb''")
    case True
    then show ?thesis by (simp add: keeps_streamed_stop)
  next
    case False
    then have eq: "to_nano_loop env p out (f # inputs) =
        and_then (convert_vdb_file env p out f) (\<lambda>_. to_nano_loop env p out inputs)"
      by simp
    show ?thesis
      unfolding eq by (intro keeps_streamed_and_then keeps_streamed_convert_vdb_file Cons.IH)
  qed
qed

subsection \<open>The driver\<close>

lemma run_main_parsed:
  assumes "parse_args init_opts args = Inr p" and "fileNames p = inputs @ [out]" and "inputs \<noteq> []"
  shows "run_main env args =
    (case direction (ext_of out) of
       Inl e \<Rightarrow> stop e
     | Inr d \<Rightarrow> and_then (overwrite_guard env p out) (\<lambda>_. conversion env p d out inputs))"
  using assms by (simp add: run_main_def Let_def)

lemma run_main_usage:
  "parse_args init_opts args = Inl (m, st) \<Longrightarrow> run_main env args = stop (UsageExit m st)"
  by (simp add: run_main_def)

lemma run_main_too_few:
  "parse_args init_opts args = Inr p \<Longrightarrow> length (fileNames p) < 2 \<Longrightarrow>
     run_main env args = stop (usage TooFewFiles)"
  by (simp add: run_main_def)

lemma main_parsed:
  assumes "parse_args init_opts args = Inr p" and "fileNames p = inputs @ [out]" and "inputs \<noteq> []"
    and "direction (ext_of out) = Inr d"
  shows "main env args =
    finish (and_then (overwrite_guard env p out) (\<lambda>_. conversion env p d out inputs))"
  using assms by (simp add: main_def run_main_parsed)

lemma overwrite_guard_cases:
  "overwrite_guard env p out =
     (if overwrite p then ([], Inr ())
      else if \<not> peek_nonempty env out then ([PeekOutput out], Inr ())
      else if affirmative (answer env) then ([PeekOutput out, Prompt out], Inr ())
      else ([PeekOutput out, Prompt out], Inl Declined))"
  by (simp add: overwrite_guard_def emit_def ret_def stop_def)

lemma overwrite_guard_events:
  "\<forall>e\<in>set (fst (overwrite_guard env p out)). e = PeekOutput out \<or> e = Prompt out"
  by (simp add: overwrite_guard_cases)

lemma overwrite_guard_ending:
  "snd (overwrite_guard env p out) = Inl e \<Longrightarrow> e = Declined"
  by (simp add: overwrite_guard_cases split: if_splits)

lemma affirmative_iff: "affirmative a \<longleftrightarrow> a \<in> {[], ''Y'', ''y'', ''yes'', ''YES''}"
  by (simp add: affirmative_def)

lemma main_guarded:
  assumes "parse_args init_opts args = Inr p" and "fileNames p = inputs @ [out]"
    and "inputs \<noteq> []" and "direction (ext_of out) = Inr d"
    and "\<not> overwrite p" and "peek_nonempty env out"
  shows "main env args =
    (if affirmative (answer env)
     then finish (and_then ([PeekOutput out, Prompt out], Inr ())
                    (\<lambda>_. conversion env p d out inputs))
     else \<lparr>status = 0, ending = Some Declined, trace = [PeekOutput out, Prompt out]\<rparr>)"
  using assms
  by (simp add: main_parsed overwrite_guard_cases finish_def EXIT_SUCCESS_def)

lemma main_events:
  assumes "parse_args init_opts args = Inr p" and "fileNames p = inputs @ [out]"
    and "inputs \<noteq> []" and "direction (ext_of out) = Inr d"
    and "P (PeekOutput out)" and "P (Prompt out)" and "P Initialize"
    and "\<forall>e\<in>set (fst (if d then to_nano env p out inputs else to_open env p out inputs)). P e"
  shows "\<forall>e\<in>set (trace (main env args)). P e"
proof -
  have g: "\<forall>e\<in>set (fst (overwrite_guard env p out)). P e"
    using overwrite_guard_events [of env p out] assms(5,6) by auto
  have c: "\<forall>e\<in>set (fst (conversion env p d out inputs)). P e"
    using assms(7,8) by (simp add: conversion_def)
  have "\<forall>e\<in>set (fst (and_then (overwrite_guard env p out)
      (\<lambda>_. conversion env p d out inputs))). P e"
    by (intro events_and_then g c)
  then show ?thesis
    by (simp add: main_parsed [OF assms(1-4)])
qed

subsection \<open>Facts of the example world\<close>

lemma example_parse_old_nvdb:
  "parse_args init_opts [''a.vdb'', ''old.nvdb''] =
     Inr (init_opts\<lparr>fileNames := [''a.vdb'', ''old.nvdb'']\<rparr>)"
  by code_simp

lemma example_files_old_nvdb:
  "fileNames (init_opts\<lparr>fileNames := [''a.vdb'', ''old.nvdb'']\<rparr>) = [''a.vdb''] @ [''old.nvdb'']"
  by simp

lemma example_inputs_a_vdb: "[''a.vdb''] \<noteq> []"
  by simp

lemma example_direction_old_nvdb: "direction (ext_of ''old.nvdb'') = Inr True"
  by code_simp

section \<open>The claims\<close>

subsection \<open>An input with the wrong extension (C1)\<close>

text \<open>
  Claim C1, as amended. Take a run to NanoVDB (the extension of the output is \<^verbatim>\<open>nvdb\<close>) that
  gets past the overwrite guard, and whose inputs have a first one, \<open>bad\<close>, with an extension
  other than \<^verbatim>\<open>vdb\<close>. The output stream is opened, which creates or truncates the output
  file, before any input is looked at; the inputs before \<open>bad\<close> are then converted as usual,
  and only they are opened. The exit status is 1: the run ends with the usage text when the
  inputs before \<open>bad\<close> went through, and with the caught exception when a library call on one
  of them threw.
\<close>

theorem mismatched_input_stops_the_loop:
  assumes "parse_args init_opts args = Inr p"
    and "fileNames p = (pre @ bad # post) @ [out]"
    and "ext_of out = ''nvdb''"
    and "\<forall>f\<in>set pre. ext_of f = ''vdb''" and "ext_of bad \<noteq> ''vdb''"
    and "overwrite_guard env p out = (gtr, Inr ())"
  shows "trace (main env args) =
           gtr @ Initialize # OpenOfstream out # fst (to_nano_loop env p out pre) \<and>
         (\<forall>e\<in>set (fst (to_nano_loop env p out pre)).
            \<forall>f. opens_input e = Some f \<longrightarrow> f \<in> set pre) \<and>
         status (main env args) = 1 \<and>
         (snd (to_nano_loop env p out pre) = Inr () \<longrightarrow>
            ending (main env args) = Some (UsageExit ExpectedVdbInputs EXIT_FAILURE)) \<and>
         (\<forall>e. snd (to_nano_loop env p out pre) = Inl e \<longrightarrow>
            ending (main env args) = Some e \<and> (\<exists>m. e = Caught m))"
proof -
  from assms(3) have d: "direction (ext_of out) = Inr True"
    by (simp add: direction_def)
  have ne: "pre @ bad # post \<noteq> []"
    by simp
  define L where "L = to_nano_loop env p out pre"
  define R where "R = and_then L (\<lambda>_. stop (usage ExpectedVdbInputs) :: (_, _, unit) run)"
  have m: "main env args = finish (gtr @ Initialize # OpenOfstream out # fst R, snd R)"
    by (simp add: main_parsed [OF assms(1,2) ne d] assms(6) conversion_def to_nano_def
        to_nano_loop_mismatch [OF assms(4,5)] R_def L_def)
  have fstR: "fst R = fst L"
    by (cases "snd L") (simp_all add: R_def fst_and_then)
  have caught: "\<forall>e. snd L = Inl e \<longrightarrow> (\<exists>m. e = Caught m)"
    unfolding L_def by (rule to_nano_loop_ending [OF assms(4)])
  have sndR: "snd R = (case snd L of Inl e \<Rightarrow> Inl e | Inr x \<Rightarrow> Inl (usage ExpectedVdbInputs))"
    by (cases "snd L") (simp_all add: R_def snd_and_then)
  have opens: "\<forall>e\<in>set (fst L). \<forall>f. opens_input e = Some f \<longrightarrow> f \<in> set pre"
    unfolding L_def by (rule to_nano_loop_events) simp_all
  have st: "status (main env args) = 1"
  proof (cases "snd L")
    case (Inl e)
    with caught obtain msg where "e = Caught msg" by blast
    with Inl show ?thesis
      by (simp add: m status_finish sndR EXIT_FAILURE_def)
  next
    case (Inr u)
    then show ?thesis
      by (simp add: m status_finish sndR usage_def EXIT_FAILURE_def)
  qed
  have en1: "ending (main env args) = Some (UsageExit ExpectedVdbInputs EXIT_FAILURE)"
    if "snd L = Inr ()"
    using that by (simp add: m ending_finish sndR usage_def)
  have en2: "ending (main env args) = Some e \<and> (\<exists>m. e = Caught m)" if "snd L = Inl e" for e
    using that caught by (simp add: m ending_finish sndR)
  from st en1 en2 opens show ?thesis
    by (simp add: m fstR L_def [symmetric])
qed

text \<open>
  With the inputs \<^verbatim>\<open>a.vdb\<close>, \<^verbatim>\<open>notes.txt\<close> and \<^verbatim>\<open>b.vdb\<close>: the first is converted, the third is
  never opened.
\<close>

theorem mismatched_input_stops_the_loop_witness:
  "parse_args init_opts [''a.vdb'', ''notes.txt'', ''b.vdb'', ''new.nvdb''] =
     Inr (init_opts\<lparr>fileNames := [''a.vdb'', ''notes.txt'', ''b.vdb'', ''new.nvdb'']\<rparr>) \<and>
   ext_of ''new.nvdb'' = ''nvdb'' \<and> ext_of ''a.vdb'' = ''vdb'' \<and> ext_of ''notes.txt'' \<noteq> ''vdb'' \<and>
   overwrite_guard example_env
       (init_opts\<lparr>fileNames := [''a.vdb'', ''notes.txt'', ''b.vdb'', ''new.nvdb'']\<rparr>) ''new.nvdb'' =
     ([PeekOutput ''new.nvdb''], Inr ()) \<and>
   trace (main example_env [''a.vdb'', ''notes.txt'', ''b.vdb'', ''new.nvdb'']) =
     [PeekOutput ''new.nvdb'', Initialize, OpenOfstream ''new.nvdb'', FileOpen ''a.vdb'',
      GetGrids ''a.vdb'', OpenToNano ''density'', WriteGrid ''new.nvdb'' ''density'' NONE] \<and>
   status (main example_env [''a.vdb'', ''notes.txt'', ''b.vdb'', ''new.nvdb'']) = 1 \<and>
   ending (main example_env [''a.vdb'', ''notes.txt'', ''b.vdb'', ''new.nvdb'']) =
     Some (UsageExit ExpectedVdbInputs EXIT_FAILURE)"
proof -
  let ?p = "init_opts\<lparr>fileNames := [''a.vdb'', ''notes.txt'', ''b.vdb'', ''new.nvdb'']\<rparr>"
  have p: "parse_args init_opts [''a.vdb'', ''notes.txt'', ''b.vdb'', ''new.nvdb''] = Inr ?p"
    by code_simp
  have f: "fileNames ?p = ([''a.vdb''] @ ''notes.txt'' # [''b.vdb'']) @ [''new.nvdb'']"
    by simp
  have e: "ext_of ''new.nvdb'' = ''nvdb''"
    by code_simp
  have ea: "ext_of ''a.vdb'' = ''vdb''"
    by code_simp
  then have pre: "\<forall>f\<in>set [''a.vdb'']. ext_of f = ''vdb''"
    by simp
  have bad: "ext_of ''notes.txt'' \<noteq> ''vdb''"
    by code_simp
  have g: "overwrite_guard example_env ?p ''new.nvdb'' = ([PeekOutput ''new.nvdb''], Inr ())"
    by code_simp
  have l: "to_nano_loop example_env ?p ''new.nvdb'' [''a.vdb''] =
      ([FileOpen ''a.vdb'', GetGrids ''a.vdb'', OpenToNano ''density'',
        WriteGrid ''new.nvdb'' ''density'' NONE], Inr ())"
    by code_simp
  note r = mismatched_input_stops_the_loop [OF p f e pre bad g]
  from r l have tr: "trace (main example_env [''a.vdb'', ''notes.txt'', ''b.vdb'', ''new.nvdb'']) =
     [PeekOutput ''new.nvdb'', Initialize, OpenOfstream ''new.nvdb'', FileOpen ''a.vdb'',
      GetGrids ''a.vdb'', OpenToNano ''density'', WriteGrid ''new.nvdb'' ''density'' NONE]"
    by simp
  from r have st: "status (main example_env [''a.vdb'', ''notes.txt'', ''b.vdb'', ''new.nvdb'']) = 1"
    by simp
  from r l have en: "ending (main example_env [''a.vdb'', ''notes.txt'', ''b.vdb'', ''new.nvdb'']) =
     Some (UsageExit ExpectedVdbInputs EXIT_FAILURE)"
    by simp
  show ?thesis
    by (intro conjI p e ea bad g tr st en)
qed

text \<open>
  Claim C1 as stated fails: with \<^verbatim>\<open>-f\<close>, the inputs \<^verbatim>\<open>a.vdb\<close> and \<^verbatim>\<open>notes.txt\<close> and the
  existing output \<^verbatim>\<open>old.nvdb\<close>, the output has been truncated, and an input opened and its
  grid written, when the mismatch is reported.
\<close>

theorem output_truncated_before_mismatch:
  "ext_of ''old.nvdb'' = ''nvdb'' \<and> ext_of ''notes.txt'' \<noteq> ''vdb'' \<and>
   main example_env [''-f'', ''a.vdb'', ''notes.txt'', ''old.nvdb''] =
     \<lparr>status = 1, ending = Some (UsageExit ExpectedVdbInputs EXIT_FAILURE),
      trace = [Initialize, OpenOfstream ''old.nvdb'', FileOpen ''a.vdb'', GetGrids ''a.vdb'',
               OpenToNano ''density'', WriteGrid ''old.nvdb'' ''density'' NONE]\<rparr> \<and>
   writes_to (OpenOfstream ''old.nvdb'' :: (string, string) event) = Some ''old.nvdb'' \<and>
   opens_input (FileOpen ''a.vdb'' :: (string, string) event) = Some ''a.vdb''"
  by code_simp

subsection \<open>The answers to the overwrite prompt (C2)\<close>

text \<open>
  Claim C2, as amended. In a run that reaches the overwrite guard (the arguments parse, there
  are at least two file names and the extension of the output is one of the two) without the
  force flag and with an output path that names a non-empty file, the tool prompts and goes on
  to the conversion exactly when the answer is the empty string, \<^verbatim>\<open>Y\<close>, \<^verbatim>\<open>y\<close>, \<^verbatim>\<open>yes\<close> or
  \<^verbatim>\<open>YES\<close>. On any other answer, the mixed-case spellings of \<^verbatim>\<open>yes\<close> among them, it exits at
  once with status 0.
\<close>

theorem overwrite_prompt_answers:
  assumes "parse_args init_opts args = Inr p" and "fileNames p = inputs @ [out]"
    and "inputs \<noteq> []" and "direction (ext_of out) = Inr d"
    and "\<not> overwrite p" and "peek_nonempty env out"
  shows "main env args =
    (if answer env \<in> {[], ''Y'', ''y'', ''yes'', ''YES''}
     then finish (and_then ([PeekOutput out, Prompt out], Inr ())
                    (\<lambda>_. conversion env p d out inputs))
     else \<lparr>status = 0, ending = Some Declined, trace = [PeekOutput out, Prompt out]\<rparr>)"
  using main_guarded [OF assms] by (simp only: affirmative_iff)

text \<open>
  With the non-empty \<^verbatim>\<open>old.nvdb\<close> as the output, the answer \<^verbatim>\<open>YES\<close> lets the conversion run
  and the answer \<^verbatim>\<open>n\<close> ends the run.
\<close>

theorem overwrite_prompt_answers_witness:
  "parse_args init_opts [''a.vdb'', ''old.nvdb''] =
     Inr (init_opts\<lparr>fileNames := [''a.vdb'', ''old.nvdb'']\<rparr>) \<and>
   direction (ext_of ''old.nvdb'') = Inr True \<and>
   \<not> overwrite (init_opts\<lparr>fileNames := [''a.vdb'', ''old.nvdb'']\<rparr>) \<and>
   peek_nonempty (example_env\<lparr>answer := ''YES''\<rparr>) ''old.nvdb'' \<and>
   main (example_env\<lparr>answer := ''YES''\<rparr>) [''a.vdb'', ''old.nvdb''] =
     \<lparr>status = 0, ending = None,
      trace = [PeekOutput ''old.nvdb'', Prompt ''old.nvdb'', Initialize,
               OpenOfstream ''old.nvdb'', FileOpen ''a.vdb'', GetGrids ''a.vdb'',
               OpenToNano ''density'', WriteGrid ''old.nvdb'' ''density'' NONE]\<rparr> \<and>
   peek_nonempty example_env ''old.nvdb'' \<and>
   main example_env [''a.vdb'', ''old.nvdb''] =
     \<lparr>status = 0, ending = Some Declined,
      trace = [PeekOutput ''old.nvdb'', Prompt ''old.nvdb'']\<rparr>"
proof -
  have ov: "\<not> overwrite (init_opts\<lparr>fileNames := [''a.vdb'', ''old.nvdb'']\<rparr>)"
    by (simp add: init_opts_def)
  have pk: "peek_nonempty (example_env\<lparr>answer := ''YES''\<rparr>) ''old.nvdb''"
    by (simp add: example_env_def)
  have pk': "peek_nonempty example_env ''old.nvdb''"
    by (simp add: example_env_def)
  have yes: "(if answer (example_env\<lparr>answer := ''YES''\<rparr>) \<in> {[], ''Y'', ''y'', ''yes'', ''YES''}
     then finish (and_then ([PeekOutput ''old.nvdb'', Prompt ''old.nvdb''], Inr ())
                    (\<lambda>_. conversion (example_env\<lparr>answer := ''YES''\<rparr>)
                           (init_opts\<lparr>fileNames := [''a.vdb'', ''old.nvdb'']\<rparr>) True
                           ''old.nvdb'' [''a.vdb'']))
     else \<lparr>status = 0, ending = Some Declined,
           trace = [PeekOutput ''old.nvdb'', Prompt ''old.nvdb'']\<rparr>) =
     \<lparr>status = 0, ending = None,
      trace = [PeekOutput ''old.nvdb'', Prompt ''old.nvdb'', Initialize,
               OpenOfstream ''old.nvdb'', FileOpen ''a.vdb'', GetGrids ''a.vdb'',
               OpenToNano ''density'', WriteGrid ''old.nvdb'' ''density'' NONE]\<rparr>"
    by code_simp
  have no: "(if answer example_env \<in> {[], ''Y'', ''y'', ''yes'', ''YES''}
     then finish (and_then ([PeekOutput ''old.nvdb'', Prompt ''old.nvdb''], Inr ())
                    (\<lambda>_. conversion example_env
                           (init_opts\<lparr>fileNames := [''a.vdb'', ''old.nvdb'']\<rparr>) True
                           ''old.nvdb'' [''a.vdb'']))
     else \<lparr>status = 0, ending = Some Declined,
           trace = [PeekOutput ''old.nvdb'', Prompt ''old.nvdb'']\<rparr>) =
     \<lparr>status = 0, ending = Some Declined,
      trace = [PeekOutput ''old.nvdb'', Prompt ''old.nvdb'']\<rparr>"
    by code_simp
  note 1 = overwrite_prompt_answers
    [OF example_parse_old_nvdb example_files_old_nvdb example_inputs_a_vdb example_direction_old_nvdb ov pk, simplified yes]
  note 2 = overwrite_prompt_answers
    [OF example_parse_old_nvdb example_files_old_nvdb example_inputs_a_vdb example_direction_old_nvdb ov pk', simplified no]
  show ?thesis
    by (intro conjI example_parse_old_nvdb example_direction_old_nvdb ov pk pk' 1 2)
qed

text \<open>
  Claim C2 as stated fails: the answer \<^verbatim>\<open>Yes\<close> does not proceed, the run ends as declined.
\<close>

theorem mixed_case_yes_declines:
  "peek_nonempty (example_env\<lparr>answer := ''Yes''\<rparr>) ''old.nvdb'' \<and>
   answer (example_env\<lparr>answer := ''Yes''\<rparr>) = ''Yes'' \<and>
   main (example_env\<lparr>answer := ''Yes''\<rparr>) [''a.vdb'', ''old.nvdb''] =
     \<lparr>status = 0, ending = Some Declined,
      trace = [PeekOutput ''old.nvdb'', Prompt ''old.nvdb'']\<rparr>"
  by code_simp

subsection \<open>The two ways of writing (C3)\<close>

text \<open>
  Claim C3. Take a run that gets past the overwrite guard. From NanoVDB to OpenVDB, the trace
  of the loop over the inputs has no operation that writes a file; the single write of the
  output file comes after the loop, as the last operation, and only when the loop has gone
  through all the inputs; by then every input has been read, and the collection written is made
  of all the grids translated during the loop, in order. From OpenVDB to NanoVDB, the output
  stream is opened before the loop, and in the loop every translation that returns a handle is
  followed at once by the write of that handle to the stream; the loop writes nothing else.
\<close>

theorem write_once_or_stream:
  assumes "parse_args init_opts args = Inr p" and "fileNames p = inputs @ [out]"
    and "inputs \<noteq> []" and "overwrite_guard env p out = (gtr, Inr ())"
  shows
    "(ext_of out = ''vdb'' \<longrightarrow>
        (let loop = to_open_loop env p [] inputs in
           trace (main env args) =
             gtr @ Initialize # fst loop @
               (case snd loop of Inl e \<Rightarrow> [] | Inr grids \<Rightarrow> [FileWrite out grids]) \<and>
           (\<forall>e\<in>set (fst loop). writes_to e = None) \<and>
           (\<forall>grids. snd loop = Inr grids \<longrightarrow>
              grids = translated env (fst loop) \<and>
              (\<forall>f\<in>set inputs. ReadGrids f \<in> set (fst loop) \<or>
                                ReadGrid f (gridName p) \<in> set (fst loop))))) \<and>
     (ext_of out = ''nvdb'' \<longrightarrow>
        (let tr = fst (to_nano_loop env p out inputs) in
           trace (main env args) = gtr @ Initialize # OpenOfstream out # tr \<and>
           streamed env p out tr \<and>
           (\<forall>e\<in>set tr. writes_to e = None \<or> (\<exists>h. e = WriteGrid out h (codec p)))))"
proof (intro conjI impI)
  assume ext: "ext_of out = ''vdb''"
  then have d: "direction (ext_of out) = Inr False"
    by (simp add: direction_def)
  define loop where "loop = to_open_loop env p [] inputs"
  have tr: "trace (main env args) =
      gtr @ Initialize # fst loop @
        (case snd loop of Inl e \<Rightarrow> [] | Inr grids \<Rightarrow> [FileWrite out grids])"
    by (cases "snd loop")
       (simp_all add: main_parsed [OF assms(1-3) d] assms(4) conversion_def to_open_def
          fst_and_then loop_def [symmetric])
  have nw: "\<forall>e\<in>set (fst loop). writes_to e = None"
    unfolding loop_def by (rule to_open_loop_events) simp_all
  have all: "grids = translated env (fst loop) \<and>
      (\<forall>f\<in>set inputs. ReadGrids f \<in> set (fst loop) \<or> ReadGrid f (gridName p) \<in> set (fst loop))"
    if "snd loop = Inr grids" for grids
    using to_open_loop_result [of env p "[]" inputs grids] that
    by (simp add: loop_def)
  from tr nw all
  show "let loop = to_open_loop env p [] inputs in
           trace (main env args) =
             gtr @ Initialize # fst loop @
               (case snd loop of Inl e \<Rightarrow> [] | Inr grids \<Rightarrow> [FileWrite out grids]) \<and>
           (\<forall>e\<in>set (fst loop). writes_to e = None) \<and>
           (\<forall>grids. snd loop = Inr grids \<longrightarrow>
              grids = translated env (fst loop) \<and>
              (\<forall>f\<in>set inputs. ReadGrids f \<in> set (fst loop) \<or>
                                ReadGrid f (gridName p) \<in> set (fst loop)))"
    unfolding Let_def loop_def by blast
next
  assume ext: "ext_of out = ''nvdb''"
  then have d: "direction (ext_of out) = Inr True"
    by (simp add: direction_def)
  define tr where "tr = fst (to_nano_loop env p out inputs)"
  have t: "trace (main env args) = gtr @ Initialize # OpenOfstream out # tr"
    by (simp add: main_parsed [OF assms(1-3) d] assms(4) conversion_def to_nano_def tr_def)
  have s: "streamed env p out tr"
    using keeps_streamed_to_nano_loop [of env p out inputs]
    by (simp add: keeps_streamed_def tr_def)
  have w: "\<forall>e\<in>set tr. writes_to e = None \<or> (\<exists>h. e = WriteGrid out h (codec p))"
    unfolding tr_def by (rule to_nano_loop_events) simp_all
  from t s w
  show "let tr = fst (to_nano_loop env p out inputs) in
           trace (main env args) = gtr @ Initialize # OpenOfstream out # tr \<and>
           streamed env p out tr \<and>
           (\<forall>e\<in>set tr. writes_to e = None \<or> (\<exists>h. e = WriteGrid out h (codec p)))"
    unfolding Let_def tr_def by blast
qed

text \<open>
  Two NanoVDB inputs give one write of three grids at the end; two OpenVDB inputs give three
  writes, each right after its translation.
\<close>

theorem write_once_or_stream_witness:
  "parse_args init_opts [''a.nvdb'', ''b.nvdb'', ''new.vdb''] =
     Inr (init_opts\<lparr>fileNames := [''a.nvdb'', ''b.nvdb'', ''new.vdb'']\<rparr>) \<and>
   overwrite_guard example_env
       (init_opts\<lparr>fileNames := [''a.nvdb'', ''b.nvdb'', ''new.vdb'']\<rparr>) ''new.vdb'' =
     ([PeekOutput ''new.vdb''], Inr ()) \<and>
   ext_of ''new.vdb'' = ''vdb'' \<and>
   trace (main example_env [''a.nvdb'', ''b.nvdb'', ''new.vdb'']) =
     [PeekOutput ''new.vdb'', Initialize, ReadGrids ''a.nvdb'', NanoToOpen ''density'',
      ReadGrids ''b.nvdb'', NanoToOpen ''temperature'', NanoToOpen ''velocity'',
      FileWrite ''new.vdb'' [''density'', ''temperature'', ''velocity'']] \<and>
   parse_args init_opts [''a.vdb'', ''b.vdb'', ''new.nvdb''] =
     Inr (init_opts\<lparr>fileNames := [''a.vdb'', ''b.vdb'', ''new.nvdb'']\<rparr>) \<and>
   overwrite_guard example_env
       (init_opts\<lparr>fileNames := [''a.vdb'', ''b.vdb'', ''new.nvdb'']\<rparr>) ''new.nvdb'' =
     ([PeekOutput ''new.nvdb''], Inr ()) \<and>
   ext_of ''new.nvdb'' = ''nvdb'' \<and>
   trace (main example_env [''a.vdb'', ''b.vdb'', ''new.nvdb'']) =
     [PeekOutput ''new.nvdb'', Initialize, OpenOfstream ''new.nvdb'',
      FileOpen ''a.vdb'', GetGrids ''a.vdb'',
      OpenToNano ''density'', WriteGrid ''new.nvdb'' ''density'' NONE,
      FileOpen ''b.vdb'', GetGrids ''b.vdb'',
      OpenToNano ''temperature'', WriteGrid ''new.nvdb'' ''temperature'' NONE,
      OpenToNano ''velocity'', WriteGrid ''new.nvdb'' ''velocity'' NONE] \<and>
   streamed example_env (init_opts\<lparr>fileNames := [''a.vdb'', ''b.vdb'', ''new.nvdb'']\<rparr>)
     ''new.nvdb''
     [FileOpen ''a.vdb'', GetGrids ''a.vdb'',
      OpenToNano ''density'', WriteGrid ''new.nvdb'' ''density'' NONE,
      FileOpen ''b.vdb'', GetGrids ''b.vdb'',
      OpenToNano ''temperature'', WriteGrid ''new.nvdb'' ''temperature'' NONE,
      OpenToNano ''velocity'', WriteGrid ''new.nvdb'' ''velocity'' NONE]"
proof -
  let ?p = "init_opts\<lparr>fileNames := [''a.nvdb'', ''b.nvdb'', ''new.vdb'']\<rparr>"
  let ?q = "init_opts\<lparr>fileNames := [''a.vdb'', ''b.vdb'', ''new.nvdb'']\<rparr>"
  have p: "parse_args init_opts [''a.nvdb'', ''b.nvdb'', ''new.vdb''] = Inr ?p"
    by code_simp
  have pf: "fileNames ?p = [''a.nvdb'', ''b.nvdb''] @ [''new.vdb'']"
    by simp
  have pn: "[''a.nvdb'', ''b.nvdb''] \<noteq> []"
    by simp
  have pg: "overwrite_guard example_env ?p ''new.vdb'' = ([PeekOutput ''new.vdb''], Inr ())"
    by code_simp
  have pe: "ext_of ''new.vdb'' = ''vdb''"
    by code_simp
  have pl: "to_open_loop example_env ?p [] [''a.nvdb'', ''b.nvdb''] =
      ([ReadGrids ''a.nvdb'', NanoToOpen ''density'',
        ReadGrids ''b.nvdb'', NanoToOpen ''temperature'', NanoToOpen ''velocity''],
       Inr [''density'', ''temperature'', ''velocity''])"
    by code_simp
  note r1 = write_once_or_stream [OF p pf pn pg, THEN conjunct1, THEN mp, OF pe,
      unfolded Let_def, THEN conjunct1, simplified pl, simplified]
  have q: "parse_args init_opts [''a.vdb'', ''b.vdb'', ''new.nvdb''] = Inr ?q"
    by code_simp
  have qf: "fileNames ?q = [''a.vdb'', ''b.vdb''] @ [''new.nvdb'']"
    by simp
  have qn: "[''a.vdb'', ''b.vdb''] \<noteq> []"
    by simp
  have qg: "overwrite_guard example_env ?q ''new.nvdb'' = ([PeekOutput ''new.nvdb''], Inr ())"
    by code_simp
  have qe: "ext_of ''new.nvdb'' = ''nvdb''"
    by code_simp
  have ql: "to_nano_loop example_env ?q ''new.nvdb'' [''a.vdb'', ''b.vdb''] =
      ([FileOpen ''a.vdb'', GetGrids ''a.vdb'',
        OpenToNano ''density'', WriteGrid ''new.nvdb'' ''density'' NONE,
        FileOpen ''b.vdb'', GetGrids ''b.vdb'',
        OpenToNano ''temperature'', WriteGrid ''new.nvdb'' ''temperature'' NONE,
        OpenToNano ''velocity'', WriteGrid ''new.nvdb'' ''velocity'' NONE], Inr ())"
    by code_simp
  note r2 = write_once_or_stream [OF q qf qn qg, THEN conjunct2, THEN mp, OF qe,
      unfolded Let_def ql fst_conv]
  note r2a = r2 [THEN conjunct1, simplified]
  note r2b = r2 [THEN conjunct2, THEN conjunct1]
  show ?thesis
    by (intro conjI p pg pe r1 q qg qe r2a r2b)
qed

subsection \<open>A grid name that no input has (C4)\<close>

text \<open>
  Claim C4, as amended. Take a run from NanoVDB to OpenVDB with a grid name that is not empty,
  where no input file has a grid of that name (for every input, \<^verbatim>\<open>readGrid\<close> returns the
  empty handle or throws). No operation of the run creates, truncates or writes a file, so the
  output is neither written nor overwritten. The exit status is 1, and the run ends with the
  usage text or a caught exception, except when the run stops at the overwrite prompt (no
  force flag, the output names a non-empty file and the answer is none of the empty string,
  \<^verbatim>\<open>Y\<close>, \<^verbatim>\<open>y\<close>, \<^verbatim>\<open>yes\<close>, \<^verbatim>\<open>YES\<close>): then the exit status is 0.
\<close>

theorem missing_grid_fails:
  assumes "parse_args init_opts args = Inr p" and "fileNames p = inputs @ [out]"
    and "inputs \<noteq> []" and "ext_of out = ''vdb''" and "gridName p \<noteq> []"
    and "\<forall>f\<in>set inputs. \<forall>h. readGrid env f (gridName p) \<noteq> Returns (Some h)"
  shows "(\<forall>e\<in>set (trace (main env args)). writes_to e = None) \<and>
         (if \<not> overwrite p \<and> peek_nonempty env out \<and>
             answer env \<notin> {[], ''Y'', ''y'', ''yes'', ''YES''}
          then status (main env args) = 0 \<and> ending (main env args) = Some Declined
          else status (main env args) = 1 \<and>
               (\<exists>e. ending (main env args) = Some e \<and> e \<noteq> Declined))"
proof -
  from assms(4) have d: "direction (ext_of out) = Inr False"
    by (simp add: direction_def)
  note m = main_parsed [OF assms(1-3) d]
  from to_open_loop_no_match [OF assms(3,5,6)] obtain e where
    e: "snd (to_open_loop env p [] inputs) = Inl e" and st: "exit_status e = EXIT_FAILURE"
    by blast
  from st have nd: "e \<noteq> Declined"
    by (auto simp: EXIT_FAILURE_def EXIT_SUCCESS_def)
  have loop: "\<forall>e\<in>set (fst (to_open_loop env p [] inputs)). writes_to e = None"
    by (rule to_open_loop_events) simp_all
  from e have conv: "conversion env p False out inputs =
      (Initialize # fst (to_open_loop env p [] inputs), Inl e)"
    by (simp add: conversion_def to_open_def fst_and_then snd_and_then)
  have "\<forall>e\<in>set (fst (and_then (overwrite_guard env p out)
      (\<lambda>_. conversion env p False out inputs))). writes_to e = None"
  proof (intro events_and_then)
    show "\<forall>e\<in>set (fst (overwrite_guard env p out)). writes_to e = None"
      using overwrite_guard_events [of env p out] by auto
    show "\<forall>e\<in>set (fst (conversion env p False out inputs)). writes_to e = None" for x :: unit
      using loop by (simp add: conv)
  qed
  then have writes: "\<forall>e\<in>set (trace (main env args)). writes_to e = None"
    by (simp add: m)
  show ?thesis
  proof (cases "\<not> overwrite p \<and> peek_nonempty env out \<and>
      answer env \<notin> {[], ''Y'', ''y'', ''yes'', ''YES''}")
    case True
    then have "\<not> overwrite p" and "peek_nonempty env out" and "\<not> affirmative (answer env)"
      by (simp_all only: affirmative_iff not_False_eq_True)
    then have "overwrite_guard env p out = ([PeekOutput out, Prompt out], Inl Declined)"
      by (simp add: overwrite_guard_cases)
    then have "status (main env args) = 0 \<and> ending (main env args) = Some Declined"
      by (simp add: m status_finish ending_finish EXIT_SUCCESS_def)
    with True writes show ?thesis
      by (simp only: if_True simp_thms)
  next
    case False
    then have "overwrite p \<or> \<not> peek_nonempty env out \<or> affirmative (answer env)"
      by (simp only: affirmative_iff de_Morgan_conj not_not)
    then have "snd (overwrite_guard env p out) = Inr ()"
      by (auto simp: overwrite_guard_cases)
    then have "status (main env args) = 1 \<and> ending (main env args) = Some e"
      by (simp add: m status_finish ending_finish snd_and_then conv st EXIT_FAILURE_def)
    with nd have "status (main env args) = 1 \<and>
        (\<exists>e. ending (main env args) = Some e \<and> e \<noteq> Declined)"
      by blast
    with False writes show ?thesis
      by (simp only: if_False simp_thms)
  qed
qed

text \<open>
  The grid \<^verbatim>\<open>pressure\<close> is not in \<^verbatim>\<open>a.nvdb\<close>. With the new output \<^verbatim>\<open>new.vdb\<close> the run ends
  with the usage text and status 1 after the read, and the output is not written; with the
  non-empty output \<^verbatim>\<open>old.vdb\<close> and the answer \<^verbatim>\<open>n\<close> it ends at the prompt with status 0.
\<close>

theorem missing_grid_fails_witness:
  "parse_args init_opts [''-g'', ''pressure'', ''a.nvdb'', ''new.vdb''] =
     Inr (init_opts\<lparr>gridName := ''pressure'', fileNames := [''a.nvdb'', ''new.vdb'']\<rparr>) \<and>
   ext_of ''new.vdb'' = ''vdb'' \<and>
   readGrid example_env ''a.nvdb'' ''pressure'' = Returns None \<and>
   \<not> peek_nonempty example_env ''new.vdb'' \<and>
   trace (main example_env [''-g'', ''pressure'', ''a.nvdb'', ''new.vdb'']) =
     [PeekOutput ''new.vdb'', Initialize, ReadGrid ''a.nvdb'' ''pressure''] \<and>
   ending (main example_env [''-g'', ''pressure'', ''a.nvdb'', ''new.vdb'']) =
     Some (UsageExit (GridNotFound ''pressure'') EXIT_FAILURE) \<and>
   status (main example_env [''-g'', ''pressure'', ''a.nvdb'', ''new.vdb'']) = 1 \<and>
   parse_args init_opts [''-g'', ''pressure'', ''a.nvdb'', ''old.vdb''] =
     Inr (init_opts\<lparr>gridName := ''pressure'', fileNames := [''a.nvdb'', ''old.vdb'']\<rparr>) \<and>
   ext_of ''old.vdb'' = ''vdb'' \<and>
   peek_nonempty example_env ''old.vdb'' \<and> answer example_env = ''n'' \<and>
   status (main example_env [''-g'', ''pressure'', ''a.nvdb'', ''old.vdb'']) = 0 \<and>
   ending (main example_env [''-g'', ''pressure'', ''a.nvdb'', ''old.vdb'']) = Some Declined"
proof -
  let ?p = "init_opts\<lparr>gridName := ''pressure'', fileNames := [''a.nvdb'', ''new.vdb'']\<rparr>"
  let ?q = "init_opts\<lparr>gridName := ''pressure'', fileNames := [''a.nvdb'', ''old.vdb'']\<rparr>"
  have p: "parse_args init_opts [''-g'', ''pressure'', ''a.nvdb'', ''new.vdb''] = Inr ?p"
    by code_simp
  have f: "fileNames ?p = [''a.nvdb''] @ [''new.vdb'']"
    by simp
  have n: "[''a.nvdb''] \<noteq> []"
    by simp
  have e: "ext_of ''new.vdb'' = ''vdb''"
    by code_simp
  have g: "gridName ?p \<noteq> []"
    by simp
  have r: "readGrid example_env ''a.nvdb'' ''pressure'' = Returns None"
    by (simp add: example_env_def)
  then have nm: "\<forall>f\<in>set [''a.nvdb'']. \<forall>h.
      readGrid example_env f (gridName ?p) \<noteq> Returns (Some h)"
    by simp
  have pk: "\<not> peek_nonempty example_env ''new.vdb''"
    by (simp add: example_env_def)
  have tr: "trace (main example_env [''-g'', ''pressure'', ''a.nvdb'', ''new.vdb'']) =
     [PeekOutput ''new.vdb'', Initialize, ReadGrid ''a.nvdb'' ''pressure'']"
    by code_simp
  have en: "ending (main example_env [''-g'', ''pressure'', ''a.nvdb'', ''new.vdb'']) =
     Some (UsageExit (GridNotFound ''pressure'') EXIT_FAILURE)"
    by code_simp
  from pk missing_grid_fails [OF p f n e g nm, THEN conjunct2]
  have st: "status (main example_env [''-g'', ''pressure'', ''a.nvdb'', ''new.vdb'']) = 1"
    by simp
  have q: "parse_args init_opts [''-g'', ''pressure'', ''a.nvdb'', ''old.vdb''] = Inr ?q"
    by code_simp
  have qf: "fileNames ?q = [''a.nvdb''] @ [''old.vdb'']"
    by simp
  have qe: "ext_of ''old.vdb'' = ''vdb''"
    by code_simp
  have qg: "gridName ?q \<noteq> []"
    by simp
  from r have qnm: "\<forall>f\<in>set [''a.nvdb'']. \<forall>h.
      readGrid example_env f (gridName ?q) \<noteq> Returns (Some h)"
    by simp
  have qpk: "peek_nonempty example_env ''old.vdb''"
    by (simp add: example_env_def)
  have an: "answer example_env = ''n''"
    by (simp add: example_env_def)
  have qo: "\<not> overwrite ?q"
    by (simp add: init_opts_def)
  from qo qpk an missing_grid_fails [OF q qf n qe qg qnm, THEN conjunct2]
  have qst: "status (main example_env [''-g'', ''pressure'', ''a.nvdb'', ''old.vdb'']) = 0 \<and>
      ending (main example_env [''-g'', ''pressure'', ''a.nvdb'', ''old.vdb'']) = Some Declined"
    by simp
  show ?thesis
    by (intro conjI p e r pk tr en st q qe qpk an qst [THEN conjunct1] qst [THEN conjunct2])
qed

text \<open>
  Claim C4 as stated fails. With the grid name \<^verbatim>\<open>pressure\<close>, which \<^verbatim>\<open>a.nvdb\<close> does not have, the
  non-empty output \<^verbatim>\<open>old.vdb\<close> and the answer \<^verbatim>\<open>n\<close>, the process exits with status 0. With an
  empty grid name, which no grid has either, all the grids are converted, the output is
  written and the status is 0.
\<close>

theorem missing_grid_exits_with_success:
  "parse_args init_opts [''-g'', ''pressure'', ''a.nvdb'', ''old.vdb''] =
     Inr (init_opts\<lparr>gridName := ''pressure'', fileNames := [''a.nvdb'', ''old.vdb'']\<rparr>) \<and>
   ext_of ''old.vdb'' = ''vdb'' \<and>
   readGrid example_env ''a.nvdb'' ''pressure'' = Returns None \<and>
   main example_env [''-g'', ''pressure'', ''a.nvdb'', ''old.vdb''] =
     \<lparr>status = 0, ending = Some Declined,
      trace = [PeekOutput ''old.vdb'', Prompt ''old.vdb'']\<rparr> \<and>
   readGrid example_env ''a.nvdb'' [] = Returns None \<and>
   main example_env [''-g'', [], ''a.nvdb'', ''new.vdb''] =
     \<lparr>status = 0, ending = None,
      trace = [PeekOutput ''new.vdb'', Initialize, ReadGrids ''a.nvdb'',
               NanoToOpen ''density'', FileWrite ''new.vdb'' [''density'']]\<rparr>"
  by code_simp

subsection \<open>Fewer than two file names (C5)\<close>

text \<open>
  Claim C5, as amended. An invocation whose arguments do not deliver two file names (the
  parser calls \<^verbatim>\<open>usage\<close>, or it collects fewer than two) ends with the usage text and
  without touching a file. The exit status is 1, except when it is the option \<^verbatim>\<open>-h\<close> or
  \<^verbatim>\<open>--help\<close> that ends the parsing: then it is 0.
\<close>

theorem fewer_than_two_operands:
  assumes "\<forall>p. parse_args init_opts args = Inr p \<longrightarrow> length (fileNames p) < 2"
  shows "trace (main env args) = [] \<and>
         (\<exists>m st. ending (main env args) = Some (UsageExit m st)) \<and>
         status (main env args) =
           (if parse_args init_opts args = Inl (Help, EXIT_SUCCESS) then 0 else 1)"
proof (cases "parse_args init_opts args")
  case (Inl e)
  obtain m st where e: "e = (m, st)" by (cases e)
  from Inl e have "main env args = \<lparr>status = st, ending = Some (UsageExit m st), trace = []\<rparr>"
    by (simp add: main_def run_main_usage finish_stop)
  moreover from Inl e parse_args_status [of init_opts args m st]
  have "st = (if (m, st) = (Help, EXIT_SUCCESS) then 0 else 1)"
    by (auto simp: EXIT_SUCCESS_def EXIT_FAILURE_def)
  ultimately show ?thesis using Inl e by simp
next
  case (Inr p)
  with assms have "length (fileNames p) < 2" by simp
  with Inr have "main env args =
      \<lparr>status = EXIT_FAILURE, ending = Some (UsageExit TooFewFiles EXIT_FAILURE), trace = []\<rparr>"
    by (simp add: main_def run_main_too_few finish_stop usage_def)
  with Inr show ?thesis by (simp add: EXIT_FAILURE_def)
qed

text \<open>One operand and the force flag: the hypothesis holds and the status is 1.\<close>

theorem fewer_than_two_operands_witness:
  "parse_args init_opts [''-f'', ''a.vdb''] =
     Inr (init_opts\<lparr>overwrite := True, fileNames := [''a.vdb'']\<rparr>) \<and>
   length (fileNames (init_opts\<lparr>overwrite := True, fileNames := [''a.vdb'']\<rparr>)) < 2 \<and>
   trace (main example_env [''-f'', ''a.vdb'']) = [] \<and>
   status (main example_env [''-f'', ''a.vdb'']) = 1"
proof -
  have p: "parse_args init_opts [''-f'', ''a.vdb''] =
      Inr (init_opts\<lparr>overwrite := True, fileNames := [''a.vdb'']\<rparr>)"
    by code_simp
  then have h: "\<forall>p. parse_args init_opts [''-f'', ''a.vdb''] = Inr p \<longrightarrow> length (fileNames p) < 2"
    by simp
  from fewer_than_two_operands [OF h, of example_env] p show ?thesis
    by simp
qed

text \<open>
  Claim C5 as stated fails: with one operand and \<^verbatim>\<open>-h\<close> the exit status is 0.
\<close>

theorem help_exits_with_success:
  "status (main example_env [''a.vdb'', ''-h'']) = 0"
  by code_simp

subsection \<open>The direction (C6)\<close>

text \<open>
  Claim C6. Once the arguments have given at least two file names, what the run does next
  depends on the extension of the output path alone, the extension being the text after the
  last dot of the path (the whole path when it has no dot, as \<open>ext_of\<close> computes it). With
  \<^verbatim>\<open>nvdb\<close> the run is the overwrite guard followed by the conversion from OpenVDB to NanoVDB,
  and no operation of the other direction occurs; with \<^verbatim>\<open>vdb\<close> it is the guard followed by
  the conversion from NanoVDB to OpenVDB, and no operation of the first direction occurs; with
  any other extension the run ends with the usage text and status 1 before any file is
  touched.
\<close>

theorem direction_by_extension:
  assumes "parse_args init_opts args = Inr p" and "fileNames p = inputs @ [out]"
    and "inputs \<noteq> []"
  shows
    "(ext_of out = ''nvdb'' \<longrightarrow>
        main env args =
          finish (and_then (overwrite_guard env p out)
                    (\<lambda>_. and_then (emit Initialize) (\<lambda>_. to_nano env p out inputs))) \<and>
        (\<forall>e\<in>set (trace (main env args)). \<not> to_open_op e)) \<and>
     (ext_of out = ''vdb'' \<longrightarrow>
        main env args =
          finish (and_then (overwrite_guard env p out)
                    (\<lambda>_. and_then (emit Initialize) (\<lambda>_. to_open env p out inputs))) \<and>
        (\<forall>e\<in>set (trace (main env args)). \<not> to_nano_op e)) \<and>
     (ext_of out \<noteq> ''nvdb'' \<and> ext_of out \<noteq> ''vdb'' \<longrightarrow>
        main env args =
          \<lparr>status = 1, ending = Some (UsageExit (UnrecognizedExtension (ext_of out)) EXIT_FAILURE),
           trace = []\<rparr>)"
proof (intro conjI impI)
  assume ext: "ext_of out = ''nvdb''"
  then have d: "direction (ext_of out) = Inr True"
    by (simp add: direction_def)
  show "main env args =
      finish (and_then (overwrite_guard env p out)
                (\<lambda>_. and_then (emit Initialize) (\<lambda>_. to_nano env p out inputs)))"
    by (simp add: main_parsed [OF assms d] conversion_def)
  have "\<forall>e\<in>set (fst (to_nano env p out inputs)). \<not> to_open_op e"
    by (rule to_nano_events) simp_all
  then show "\<forall>e\<in>set (trace (main env args)). \<not> to_open_op e"
    by (intro main_events [OF assms d]) simp_all
next
  assume ext: "ext_of out = ''vdb''"
  then have d: "direction (ext_of out) = Inr False"
    by (simp add: direction_def)
  show "main env args =
      finish (and_then (overwrite_guard env p out)
                (\<lambda>_. and_then (emit Initialize) (\<lambda>_. to_open env p out inputs)))"
    by (simp add: main_parsed [OF assms d] conversion_def)
  have "\<forall>e\<in>set (fst (to_open env p out inputs)). \<not> to_nano_op e"
    by (rule to_open_events) simp_all
  then show "\<forall>e\<in>set (trace (main env args)). \<not> to_nano_op e"
    by (intro main_events [OF assms d]) simp_all
next
  assume ext: "ext_of out \<noteq> ''nvdb'' \<and> ext_of out \<noteq> ''vdb''"
  then have "direction (ext_of out) = Inl (usage (UnrecognizedExtension (ext_of out)))"
    by (simp add: direction_def)
  with assms show "main env args =
      \<lparr>status = 1, ending = Some (UsageExit (UnrecognizedExtension (ext_of out)) EXIT_FAILURE),
       trace = []\<rparr>"
    by (simp add: main_def run_main_parsed finish_stop usage_def EXIT_FAILURE_def)
qed

text \<open>
  An output \<^verbatim>\<open>new.nvdb\<close> converts \<^verbatim>\<open>a.vdb\<close> to NanoVDB, an output \<^verbatim>\<open>new.vdb\<close> converts
  \<^verbatim>\<open>a.nvdb\<close> to OpenVDB, an output \<^verbatim>\<open>out.txt\<close> is a usage error.
\<close>

theorem direction_by_extension_witness:
  "parse_args init_opts [''a.vdb'', ''new.nvdb''] =
     Inr (init_opts\<lparr>fileNames := [''a.vdb'', ''new.nvdb'']\<rparr>) \<and>
   ext_of ''new.nvdb'' = ''nvdb'' \<and>
   main example_env [''a.vdb'', ''new.nvdb''] =
     \<lparr>status = 0, ending = None,
      trace = [PeekOutput ''new.nvdb'', Initialize, OpenOfstream ''new.nvdb'',
               FileOpen ''a.vdb'', GetGrids ''a.vdb'', OpenToNano ''density'',
               WriteGrid ''new.nvdb'' ''density'' NONE]\<rparr> \<and>
   parse_args init_opts [''a.nvdb'', ''new.vdb''] =
     Inr (init_opts\<lparr>fileNames := [''a.nvdb'', ''new.vdb'']\<rparr>) \<and>
   ext_of ''new.vdb'' = ''vdb'' \<and>
   main example_env [''a.nvdb'', ''new.vdb''] =
     \<lparr>status = 0, ending = None,
      trace = [PeekOutput ''new.vdb'', Initialize, ReadGrids ''a.nvdb'',
               NanoToOpen ''density'', FileWrite ''new.vdb'' [''density'']]\<rparr> \<and>
   parse_args init_opts [''a.vdb'', ''out.txt''] =
     Inr (init_opts\<lparr>fileNames := [''a.vdb'', ''out.txt'']\<rparr>) \<and>
   ext_of ''out.txt'' \<noteq> ''nvdb'' \<and> ext_of ''out.txt'' \<noteq> ''vdb'' \<and>
   main example_env [''a.vdb'', ''out.txt''] =
     \<lparr>status = 1, ending = Some (UsageExit (UnrecognizedExtension ''txt'') EXIT_FAILURE),
      trace = []\<rparr>"
proof -
  have p1: "parse_args init_opts [''a.vdb'', ''new.nvdb''] =
     Inr (init_opts\<lparr>fileNames := [''a.vdb'', ''new.nvdb'']\<rparr>)"
    by code_simp
  have f1: "fileNames (init_opts\<lparr>fileNames := [''a.vdb'', ''new.nvdb'']\<rparr>) =
     [''a.vdb''] @ [''new.nvdb'']"
    by simp
  have e1: "ext_of ''new.nvdb'' = ''nvdb''"
    by code_simp
  have v1: "finish (and_then
       (overwrite_guard example_env (init_opts\<lparr>fileNames := [''a.vdb'', ''new.nvdb'']\<rparr>)
          ''new.nvdb'')
       (\<lambda>_. and_then (emit Initialize)
          (\<lambda>_. to_nano example_env (init_opts\<lparr>fileNames := [''a.vdb'', ''new.nvdb'']\<rparr>)
                 ''new.nvdb'' [''a.vdb'']))) =
     \<lparr>status = 0, ending = None,
      trace = [PeekOutput ''new.nvdb'', Initialize, OpenOfstream ''new.nvdb'',
               FileOpen ''a.vdb'', GetGrids ''a.vdb'', OpenToNano ''density'',
               WriteGrid ''new.nvdb'' ''density'' NONE]\<rparr>"
    by code_simp
  note r1 = direction_by_extension [OF p1 f1 example_inputs_a_vdb, of example_env,
      THEN conjunct1, THEN mp, OF e1, THEN conjunct1, simplified v1]
  have p2: "parse_args init_opts [''a.nvdb'', ''new.vdb''] =
     Inr (init_opts\<lparr>fileNames := [''a.nvdb'', ''new.vdb'']\<rparr>)"
    by code_simp
  have f2: "fileNames (init_opts\<lparr>fileNames := [''a.nvdb'', ''new.vdb'']\<rparr>) =
     [''a.nvdb''] @ [''new.vdb'']"
    by simp
  have n2: "[''a.nvdb''] \<noteq> []"
    by simp
  have e2: "ext_of ''new.vdb'' = ''vdb''"
    by code_simp
  have v2: "finish (and_then
       (overwrite_guard example_env (init_opts\<lparr>fileNames := [''a.nvdb'', ''new.vdb'']\<rparr>)
          ''new.vdb'')
       (\<lambda>_. and_then (emit Initialize)
          (\<lambda>_. to_open example_env (init_opts\<lparr>fileNames := [''a.nvdb'', ''new.vdb'']\<rparr>)
                 ''new.vdb'' [''a.nvdb'']))) =
     \<lparr>status = 0, ending = None,
      trace = [PeekOutput ''new.vdb'', Initialize, ReadGrids ''a.nvdb'',
               NanoToOpen ''density'', FileWrite ''new.vdb'' [''density'']]\<rparr>"
    by code_simp
  note r2 = direction_by_extension [OF p2 f2 n2, of example_env,
      THEN conjunct2, THEN conjunct1, THEN mp, OF e2, THEN conjunct1, simplified v2]
  have p3: "parse_args init_opts [''a.vdb'', ''out.txt''] =
     Inr (init_opts\<lparr>fileNames := [''a.vdb'', ''out.txt'']\<rparr>)"
    by code_simp
  have f3: "fileNames (init_opts\<lparr>fileNames := [''a.vdb'', ''out.txt'']\<rparr>) =
     [''a.vdb''] @ [''out.txt'']"
    by simp
  have e3: "ext_of ''out.txt'' = ''txt''"
    by code_simp
  have e3': "ext_of ''out.txt'' \<noteq> ''nvdb'' \<and> ext_of ''out.txt'' \<noteq> ''vdb''"
    by (simp add: e3)
  note r3 = direction_by_extension [OF p3 f3 example_inputs_a_vdb, of example_env,
      THEN conjunct2, THEN conjunct2, THEN mp, OF e3', simplified e3]
  from e3' have e3a: "ext_of ''out.txt'' \<noteq> ''nvdb''" and e3b: "ext_of ''out.txt'' \<noteq> ''vdb''"
    by simp_all
  show ?thesis
    by (intro conjI p1 e1 r1 p2 e2 r2 p3 e3a e3b r3)
qed

subsection \<open>Invalid mode values (C7)\<close>

text \<open>
  Claim C7. When the parser reaches \<^verbatim>\<open>-c\<close> or \<^verbatim>\<open>--checksum\<close> (the tokens before it have been
  parsed without a call of \<^verbatim>\<open>usage\<close>) and the value after it is, in lower case, none of
  \<^verbatim>\<open>none\<close>, \<^verbatim>\<open>partial\<close>, \<^verbatim>\<open>full\<close>, the run ends with the usage text and status 1 before
  any file is touched; so does it for \<^verbatim>\<open>-s\<close> or \<^verbatim>\<open>--stats\<close> and a value that is none of
  \<^verbatim>\<open>none\<close>, \<^verbatim>\<open>bbox\<close>, \<^verbatim>\<open>extrema\<close>, \<^verbatim>\<open>all\<close>. The parser returns no options at all: no mode is
  put in the place of the value. The value is compared in lower case, as the code does
  (claim C9).
\<close>

theorem invalid_mode_usage_error:
  assumes "parse_args init_opts pre = Inr q"
  shows "((c = ''-c'' \<or> c = ''--checksum'') \<and> map tolower v \<notin> {''none'', ''partial'', ''full''} \<longrightarrow>
           parse_args init_opts (pre @ c # v # post) = Inl (BadChecksumMode, EXIT_FAILURE) \<and>
           main env (pre @ c # v # post) =
             \<lparr>status = 1, ending = Some (UsageExit BadChecksumMode EXIT_FAILURE), trace = []\<rparr>) \<and>
         ((c = ''-s'' \<or> c = ''--stats'') \<and>
          map tolower v \<notin> {''none'', ''bbox'', ''extrema'', ''all''} \<longrightarrow>
           parse_args init_opts (pre @ c # v # post) = Inl (BadStatsMode, EXIT_FAILURE) \<and>
           main env (pre @ c # v # post) =
             \<lparr>status = 1, ending = Some (UsageExit BadStatsMode EXIT_FAILURE), trace = []\<rparr>)"
proof (intro conjI impI)
  assume a: "(c = ''-c'' \<or> c = ''--checksum'') \<and> map tolower v \<notin> {''none'', ''partial'', ''full''}"
  then have "parse_arg q c (v # post) = Inl (BadChecksumMode, EXIT_FAILURE)"
    by (simp add: parse_arg_checksum)
  then show p: "parse_args init_opts (pre @ c # v # post) = Inl (BadChecksumMode, EXIT_FAILURE)"
    by (simp add: parse_args_append [OF assms])
  show "main env (pre @ c # v # post) =
      \<lparr>status = 1, ending = Some (UsageExit BadChecksumMode EXIT_FAILURE), trace = []\<rparr>"
    by (simp add: main_def run_main_usage [OF p] finish_stop EXIT_FAILURE_def)
next
  assume a: "(c = ''-s'' \<or> c = ''--stats'') \<and>
      map tolower v \<notin> {''none'', ''bbox'', ''extrema'', ''all''}"
  then have "parse_arg q c (v # post) = Inl (BadStatsMode, EXIT_FAILURE)"
    by (simp add: parse_arg_stats)
  then show p: "parse_args init_opts (pre @ c # v # post) = Inl (BadStatsMode, EXIT_FAILURE)"
    by (simp add: parse_args_append [OF assms])
  show "main env (pre @ c # v # post) =
      \<lparr>status = 1, ending = Some (UsageExit BadStatsMode EXIT_FAILURE), trace = []\<rparr>"
    by (simp add: main_def run_main_usage [OF p] finish_stop EXIT_FAILURE_def)
qed

text \<open>
  After \<^verbatim>\<open>-v\<close>, the checksum mode \<^verbatim>\<open>Fast\<close> and the statistics mode \<^verbatim>\<open>minmax\<close> are usage errors.
\<close>

theorem invalid_mode_usage_error_witness:
  "parse_args init_opts [''-v''] = Inr (init_opts\<lparr>verbose := True\<rparr>) \<and>
   map tolower ''Fast'' \<notin> {''none'', ''partial'', ''full''} \<and>
   main example_env [''-v'', ''-c'', ''Fast'', ''a.vdb'', ''out.nvdb''] =
     \<lparr>status = 1, ending = Some (UsageExit BadChecksumMode EXIT_FAILURE), trace = []\<rparr> \<and>
   map tolower ''minmax'' \<notin> {''none'', ''bbox'', ''extrema'', ''all''} \<and>
   main example_env [''-v'', ''--stats'', ''minmax'', ''a.vdb'', ''out.nvdb''] =
     \<lparr>status = 1, ending = Some (UsageExit BadStatsMode EXIT_FAILURE), trace = []\<rparr>"
proof -
  have pre: "parse_args init_opts [''-v''] = Inr (init_opts\<lparr>verbose := True\<rparr>)"
    by code_simp
  have c: "map tolower ''Fast'' \<notin> {''none'', ''partial'', ''full''}"
    by code_simp
  have s: "map tolower ''minmax'' \<notin> {''none'', ''bbox'', ''extrema'', ''all''}"
    by code_simp
  from c invalid_mode_usage_error
    [OF pre, of "''-c''" "''Fast''" "[''a.vdb'', ''out.nvdb'']" example_env]
  have 1: "main example_env [''-v'', ''-c'', ''Fast'', ''a.vdb'', ''out.nvdb''] =
     \<lparr>status = 1, ending = Some (UsageExit BadChecksumMode EXIT_FAILURE), trace = []\<rparr>"
    by simp
  from s invalid_mode_usage_error
    [OF pre, of "''--stats''" "''minmax''" "[''a.vdb'', ''out.nvdb'']" example_env]
  have 2: "main example_env [''-v'', ''--stats'', ''minmax'', ''a.vdb'', ''out.nvdb''] =
     \<lparr>status = 1, ending = Some (UsageExit BadStatsMode EXIT_FAILURE), trace = []\<rparr>"
    by simp
  show ?thesis
    by (intro conjI pre c s 1 2)
qed

subsection \<open>A declined overwrite (C8)\<close>

text \<open>
  Claim C8. When a run reaches the overwrite guard without the force flag, the output path
  names a non-empty file and the answer is not one on which the tool proceeds, the tool has
  prompted, the run consists of the look at the output file and the prompt, none of its
  operations creates, truncates or writes a file, and the process exits with status 0.
\<close>

theorem declined_overwrite_leaves_output:
  assumes "parse_args init_opts args = Inr p" and "fileNames p = inputs @ [out]"
    and "inputs \<noteq> []" and "direction (ext_of out) = Inr d"
    and "\<not> overwrite p" and "peek_nonempty env out"
    and "answer env \<notin> {[], ''Y'', ''y'', ''yes'', ''YES''}"
  shows "trace (main env args) = [PeekOutput out, Prompt out] \<and>
         (\<forall>e\<in>set (trace (main env args)). writes_to e = None) \<and>
         status (main env args) = 0 \<and>
         ending (main env args) = Some Declined"
proof -
  from assms(7) have "\<not> affirmative (answer env)"
    by (simp only: affirmative_iff not_False_eq_True)
  with main_guarded [OF assms(1-6)]
  have "main env args =
      \<lparr>status = 0, ending = Some Declined, trace = [PeekOutput out, Prompt out]\<rparr>"
    by simp
  then show ?thesis by simp
qed

text \<open>
  The answer \<^verbatim>\<open>n\<close> with the non-empty \<^verbatim>\<open>old.nvdb\<close> as the output.
\<close>

theorem declined_overwrite_leaves_output_witness:
  "parse_args init_opts [''a.vdb'', ''old.nvdb''] =
     Inr (init_opts\<lparr>fileNames := [''a.vdb'', ''old.nvdb'']\<rparr>) \<and>
   direction (ext_of ''old.nvdb'') = Inr True \<and>
   \<not> overwrite (init_opts\<lparr>fileNames := [''a.vdb'', ''old.nvdb'']\<rparr>) \<and>
   peek_nonempty example_env ''old.nvdb'' \<and>
   answer example_env = ''n'' \<and>
   ''n'' \<notin> {[], ''Y'', ''y'', ''yes'', ''YES''} \<and>
   trace (main example_env [''a.vdb'', ''old.nvdb'']) =
     [PeekOutput ''old.nvdb'', Prompt ''old.nvdb''] \<and>
   status (main example_env [''a.vdb'', ''old.nvdb'']) = 0 \<and>
   ending (main example_env [''a.vdb'', ''old.nvdb'']) = Some Declined"
proof -
  have ov: "\<not> overwrite (init_opts\<lparr>fileNames := [''a.vdb'', ''old.nvdb'']\<rparr>)"
    by (simp add: init_opts_def)
  have pk: "peek_nonempty example_env ''old.nvdb''"
    by (simp add: example_env_def)
  have an: "answer example_env = ''n''"
    by (simp add: example_env_def)
  have n: "''n'' \<notin> {[], ''Y'', ''y'', ''yes'', ''YES''}"
    by simp
  from n an have n': "answer example_env \<notin> {[], ''Y'', ''y'', ''yes'', ''YES''}"
    by simp
  note r = declined_overwrite_leaves_output
    [OF example_parse_old_nvdb example_files_old_nvdb example_inputs_a_vdb example_direction_old_nvdb ov pk n']
  have r': "trace (main example_env [''a.vdb'', ''old.nvdb'']) =
       [PeekOutput ''old.nvdb'', Prompt ''old.nvdb''] \<and>
     (\<forall>e\<in>set (trace (main example_env [''a.vdb'', ''old.nvdb''])). writes_to e = None) \<and>
     status (main example_env [''a.vdb'', ''old.nvdb'']) = 0 \<and>
     ending (main example_env [''a.vdb'', ''old.nvdb'']) = Some Declined"
    by (rule r)
  show ?thesis
    using r' by (intro conjI example_parse_old_nvdb example_direction_old_nvdb ov pk an n) simp_all
qed

subsection \<open>Mode values in any case (C9)\<close>

text \<open>
  Claim C9. Let \<open>v\<close> be a case variant of a mode word: the letters of the word, each in lower
  or in upper case. Put in lower case, as the parser does before it compares, \<open>v\<close> is the
  word. So the pass of the loop on \<^verbatim>\<open>-c\<close> or \<^verbatim>\<open>--checksum\<close> followed by \<open>v\<close> calls no
  \<^verbatim>\<open>usage\<close>: it stores the checksum mode of the word and leaves the tokens after \<open>v\<close> to be
  read; the parsing goes on from the options with that mode; and when only file names follow,
  the parser returns the options with that mode and those file names. The same holds for
  \<^verbatim>\<open>-s\<close> or \<^verbatim>\<open>--stats\<close> and the statistics modes.
\<close>

theorem mode_values_case_insensitive:
  assumes "\<forall>a\<in>set files. a \<noteq> [] \<and> hd a \<noteq> CHR ''-''"
  shows
    "((c = ''-c'' \<or> c = ''--checksum'') \<and>
      (w, m) \<in> {(''none'', CM_Disable), (''partial'', CM_Partial), (''full'', CM_Full)} \<and>
      case_variant v w \<longrightarrow>
        map tolower v = w \<and>
        parse_arg p c (v # rest) = Inr (p\<lparr>cMode := m\<rparr>, rest) \<and>
        parse_args p (c # v # rest) = parse_args (p\<lparr>cMode := m\<rparr>) rest \<and>
        parse_args p (c # v # files) = Inr (p\<lparr>cMode := m, fileNames := fileNames p @ files\<rparr>)) \<and>
     ((c = ''-s'' \<or> c = ''--stats'') \<and>
      (w, s) \<in> {(''none'', SM_Disable), (''bbox'', SM_BBox), (''extrema'', SM_MinMax),
                 (''all'', SM_All)} \<and>
      case_variant v w \<longrightarrow>
        map tolower v = w \<and>
        parse_arg p c (v # rest) = Inr (p\<lparr>sMode := s\<rparr>, rest) \<and>
        parse_args p (c # v # rest) = parse_args (p\<lparr>sMode := s\<rparr>) rest \<and>
        parse_args p (c # v # files) = Inr (p\<lparr>sMode := s, fileNames := fileNames p @ files\<rparr>))"
proof (rule conjI; rule impI)
  assume a: "(c = ''-c'' \<or> c = ''--checksum'') \<and>
      (w, m) \<in> {(''none'', CM_Disable), (''partial'', CM_Partial), (''full'', CM_Full)} \<and>
      case_variant v w"
  then have c: "c = ''-c'' \<or> c = ''--checksum''" and cv: "case_variant v w"
    and wm: "w = ''none'' \<and> m = CM_Disable \<or> w = ''partial'' \<and> m = CM_Partial \<or>
             w = ''full'' \<and> m = CM_Full"
    by simp_all
  from wm have "lower_letters w"
    by (elim disjE conjE) (simp_all add: lower_letters_def)
  with cv have l: "map tolower v = w"
    by (rule case_variant_lower)
  have step: "parse_arg p c (v # r) = Inr (p\<lparr>cMode := m\<rparr>, r)" for r
    using wm l by (elim disjE conjE) (simp_all add: parse_arg_checksum [OF c])
  note sel = option_value_selected [of p c v "p\<lparr>cMode := m\<rparr>", OF step assms]
  from l step sel
  show "map tolower v = w \<and>
        parse_arg p c (v # rest) = Inr (p\<lparr>cMode := m\<rparr>, rest) \<and>
        parse_args p (c # v # rest) = parse_args (p\<lparr>cMode := m\<rparr>) rest \<and>
        parse_args p (c # v # files) = Inr (p\<lparr>cMode := m, fileNames := fileNames p @ files\<rparr>)"
    by simp
next
  assume a: "(c = ''-s'' \<or> c = ''--stats'') \<and>
      (w, s) \<in> {(''none'', SM_Disable), (''bbox'', SM_BBox), (''extrema'', SM_MinMax),
                 (''all'', SM_All)} \<and>
      case_variant v w"
  then have c: "c = ''-s'' \<or> c = ''--stats''" and cv: "case_variant v w"
    and ws: "w = ''none'' \<and> s = SM_Disable \<or> w = ''bbox'' \<and> s = SM_BBox \<or>
             w = ''extrema'' \<and> s = SM_MinMax \<or> w = ''all'' \<and> s = SM_All"
    by simp_all
  from ws have "lower_letters w"
    by (elim disjE conjE) (simp_all add: lower_letters_def)
  with cv have l: "map tolower v = w"
    by (rule case_variant_lower)
  have step: "parse_arg p c (v # r) = Inr (p\<lparr>sMode := s\<rparr>, r)" for r
    using ws l by (elim disjE conjE) (simp_all add: parse_arg_stats [OF c])
  note sel = option_value_selected [of p c v "p\<lparr>sMode := s\<rparr>", OF step assms]
  from l step sel
  show "map tolower v = w \<and>
        parse_arg p c (v # rest) = Inr (p\<lparr>sMode := s\<rparr>, rest) \<and>
        parse_args p (c # v # rest) = parse_args (p\<lparr>sMode := s\<rparr>) rest \<and>
        parse_args p (c # v # files) = Inr (p\<lparr>sMode := s, fileNames := fileNames p @ files\<rparr>)"
    by simp
qed

text \<open>
  The values \<^verbatim>\<open>FULL\<close>, \<^verbatim>\<open>BBox\<close> and \<^verbatim>\<open>None\<close> are case variants of mode words; followed by the
  file names \<^verbatim>\<open>a.vdb\<close> and \<^verbatim>\<open>out.nvdb\<close> they give the options with the full checksum, with the
  bounding-box statistics and with no checksum.
\<close>

theorem mode_values_case_insensitive_witness:
  "case_variant ''FULL'' ''full'' \<and>
   map tolower ''FULL'' = ''full'' \<and>
   parse_args init_opts [''-c'', ''FULL'', ''a.vdb'', ''out.nvdb''] =
     Inr (init_opts\<lparr>cMode := CM_Full, fileNames := [''a.vdb'', ''out.nvdb'']\<rparr>) \<and>
   case_variant ''BBox'' ''bbox'' \<and>
   map tolower ''BBox'' = ''bbox'' \<and>
   parse_args init_opts [''--stats'', ''BBox'', ''a.vdb'', ''out.nvdb''] =
     Inr (init_opts\<lparr>sMode := SM_BBox, fileNames := [''a.vdb'', ''out.nvdb'']\<rparr>) \<and>
   case_variant ''None'' ''none'' \<and>
   map tolower ''None'' = ''none'' \<and>
   parse_args init_opts [''--checksum'', ''None'', ''a.vdb'', ''out.nvdb''] =
     Inr (init_opts\<lparr>cMode := CM_Disable, fileNames := [''a.vdb'', ''out.nvdb'']\<rparr>)"
proof -
  have files: "\<forall>a\<in>set [''a.vdb'', ''out.nvdb'']. a \<noteq> [] \<and> hd a \<noteq> CHR ''-''"
    by simp
  have fn: "fileNames init_opts @ [''a.vdb'', ''out.nvdb''] = [''a.vdb'', ''out.nvdb'']"
    by (simp add: init_opts_def)
  have v1: "case_variant ''FULL'' ''full''"
    by code_simp
  have h1: "(''-c'' = ''-c'' \<or> ''-c'' = ''--checksum'') \<and>
      (''full'', CM_Full) \<in>
        {(''none'', CM_Disable), (''partial'', CM_Partial), (''full'', CM_Full)} \<and>
      case_variant ''FULL'' ''full''"
    using v1 by simp
  note r1 = mode_values_case_insensitive [OF files, THEN conjunct1, THEN mp, OF h1,
      of init_opts, unfolded fn]
  have v2: "case_variant ''BBox'' ''bbox''"
    by code_simp
  have h2: "(''--stats'' = ''-s'' \<or> ''--stats'' = ''--stats'') \<and>
      (''bbox'', SM_BBox) \<in>
        {(''none'', SM_Disable), (''bbox'', SM_BBox), (''extrema'', SM_MinMax),
         (''all'', SM_All)} \<and>
      case_variant ''BBox'' ''bbox''"
    using v2 by simp
  note r2 = mode_values_case_insensitive [OF files, THEN conjunct2, THEN mp, OF h2,
      of init_opts, unfolded fn]
  have v3: "case_variant ''None'' ''none''"
    by code_simp
  have h3: "(''--checksum'' = ''-c'' \<or> ''--checksum'' = ''--checksum'') \<and>
      (''none'', CM_Disable) \<in>
        {(''none'', CM_Disable), (''partial'', CM_Partial), (''full'', CM_Full)} \<and>
      case_variant ''None'' ''none''"
    using v3 by simp
  note r3 = mode_values_case_insensitive [OF files, THEN conjunct1, THEN mp, OF h3,
      of init_opts, unfolded fn]
  show ?thesis
    by (intro conjI v1 v2 v3
        r1 [THEN conjunct1] r1 [THEN conjunct2, THEN conjunct2, THEN conjunct2]
        r2 [THEN conjunct1] r2 [THEN conjunct2, THEN conjunct2, THEN conjunct2]
        r3 [THEN conjunct1] r3 [THEN conjunct2, THEN conjunct2, THEN conjunct2])
qed

subsection \<open>Later options override earlier ones (C10)\<close>

text \<open>
  Claim C10. The tokens are read from left to right: after a prefix that the parser has read
  completely, the remaining tokens are parsed from the options the prefix left. So a later
  option overrides an earlier one: whatever the prefix holds, a codec flag that no other codec
  flag follows decides the codec, and the value of a \<^verbatim>\<open>-c\<close>, \<^verbatim>\<open>-s\<close> or \<^verbatim>\<open>-g\<close> option that
  no option of the same kind follows is the one in the result.
\<close>

theorem later_options_override:
  assumes pre: "parse_args p pre = Inr q" and all: "parse_args p (pre @ post) = Inr r"
  shows "parse_args q post = Inr r \<and>
    (post = f # rest \<and> (f = ''-b'' \<or> f = ''--blosc'') \<and>
       set rest \<inter> {''-b'', ''--blosc'', ''-z'', ''--zip''} = {} \<longrightarrow> codec r = BLOSC) \<and>
    (post = f # rest \<and> (f = ''-z'' \<or> f = ''--zip'') \<and>
       set rest \<inter> {''-b'', ''--blosc'', ''-z'', ''--zip''} = {} \<longrightarrow> codec r = ZIP) \<and>
    (post = f # v # rest' \<and> (f = ''-c'' \<or> f = ''--checksum'') \<and>
       set rest' \<inter> {''-c'', ''--checksum''} = {} \<longrightarrow>
         cMode r = (if map tolower v = ''none'' then CM_Disable
                    else if map tolower v = ''partial'' then CM_Partial else CM_Full)) \<and>
    (post = f # v # rest' \<and> (f = ''-s'' \<or> f = ''--stats'') \<and>
       set rest' \<inter> {''-s'', ''--stats''} = {} \<longrightarrow>
         sMode r = (if map tolower v = ''none'' then SM_Disable
                    else if map tolower v = ''bbox'' then SM_BBox
                    else if map tolower v = ''extrema'' then SM_MinMax else SM_All)) \<and>
    (post = f # v # rest' \<and> (f = ''-g'' \<or> f = ''--grid'') \<and>
       set rest' \<inter> {''-g'', ''--grid''} = {} \<longrightarrow> gridName r = v)"
proof -
  from all have post: "parse_args q post = Inr r"
    by (simp add: parse_args_append [OF pre])
  have blosc: "codec r = BLOSC"
    if "post = f # rest" "f = ''-b'' \<or> f = ''--blosc''"
      "set rest \<inter> {''-b'', ''--blosc'', ''-z'', ''--zip''} = {}"
  proof -
    from post that(1) parse_arg_blosc [OF that(2), of q rest]
    have "parse_args (q\<lparr>codec := BLOSC\<rparr>) rest = Inr r" by simp
    from parse_args_frame [OF this] that(3) show ?thesis by simp
  qed
  have zip: "codec r = ZIP"
    if "post = f # rest" "f = ''-z'' \<or> f = ''--zip''"
      "set rest \<inter> {''-b'', ''--blosc'', ''-z'', ''--zip''} = {}"
  proof -
    from post that(1) parse_arg_zip [OF that(2), of q rest]
    have "parse_args (q\<lparr>codec := ZIP\<rparr>) rest = Inr r" by simp
    from parse_args_frame [OF this] that(3) show ?thesis by simp
  qed
  have checksum: "cMode r = (if map tolower v = ''none'' then CM_Disable
                    else if map tolower v = ''partial'' then CM_Partial else CM_Full)"
    if "post = f # v # rest'" "f = ''-c'' \<or> f = ''--checksum''"
      "set rest' \<inter> {''-c'', ''--checksum''} = {}"
  proof -
    from post that(1) parse_arg_checksum [OF that(2), of q v rest']
    obtain m where "parse_args (q\<lparr>cMode := m\<rparr>) rest' = Inr r"
      and "m = (if map tolower v = ''none'' then CM_Disable
                else if map tolower v = ''partial'' then CM_Partial else CM_Full)"
      by (auto split: if_splits)
    with parse_args_frame [OF this(1)] that(3) show ?thesis by simp
  qed
  have stats: "sMode r = (if map tolower v = ''none'' then SM_Disable
                    else if map tolower v = ''bbox'' then SM_BBox
                    else if map tolower v = ''extrema'' then SM_MinMax else SM_All)"
    if "post = f # v # rest'" "f = ''-s'' \<or> f = ''--stats''"
      "set rest' \<inter> {''-s'', ''--stats''} = {}"
  proof -
    from post that(1) parse_arg_stats [OF that(2), of q v rest']
    obtain m where "parse_args (q\<lparr>sMode := m\<rparr>) rest' = Inr r"
      and "m = (if map tolower v = ''none'' then SM_Disable
                else if map tolower v = ''bbox'' then SM_BBox
                else if map tolower v = ''extrema'' then SM_MinMax else SM_All)"
      by (auto split: if_splits)
    with parse_args_frame [OF this(1)] that(3) show ?thesis by simp
  qed
  have grid: "gridName r = v"
    if "post = f # v # rest'" "f = ''-g'' \<or> f = ''--grid''"
      "set rest' \<inter> {''-g'', ''--grid''} = {}"
  proof -
    from post that(1) parse_arg_grid [OF that(2), of q v rest']
    have "parse_args (q\<lparr>gridName := v\<rparr>) rest' = Inr r" by simp
    from parse_args_frame [OF this] that(3) show ?thesis by simp
  qed
  show ?thesis
  proof (intro conjI impI)
    show "parse_args q post = Inr r" by (rule post)
  next
    assume "post = f # rest \<and> (f = ''-b'' \<or> f = ''--blosc'') \<and>
       set rest \<inter> {''-b'', ''--blosc'', ''-z'', ''--zip''} = {}"
    then show "codec r = BLOSC" by (elim conjE, intro blosc)
  next
    assume "post = f # rest \<and> (f = ''-z'' \<or> f = ''--zip'') \<and>
       set rest \<inter> {''-b'', ''--blosc'', ''-z'', ''--zip''} = {}"
    then show "codec r = ZIP" by (elim conjE, intro zip)
  next
    assume "post = f # v # rest' \<and> (f = ''-c'' \<or> f = ''--checksum'') \<and>
       set rest' \<inter> {''-c'', ''--checksum''} = {}"
    then show "cMode r = (if map tolower v = ''none'' then CM_Disable
                    else if map tolower v = ''partial'' then CM_Partial else CM_Full)"
      by (elim conjE, intro checksum)
  next
    assume "post = f # v # rest' \<and> (f = ''-s'' \<or> f = ''--stats'') \<and>
       set rest' \<inter> {''-s'', ''--stats''} = {}"
    then show "sMode r = (if map tolower v = ''none'' then SM_Disable
                    else if map tolower v = ''bbox'' then SM_BBox
                    else if map tolower v = ''extrema'' then SM_MinMax else SM_All)"
      by (elim conjE, intro stats)
  next
    assume "post = f # v # rest' \<and> (f = ''-g'' \<or> f = ''--grid'') \<and>
       set rest' \<inter> {''-g'', ''--grid''} = {}"
    then show "gridName r = v" by (elim conjE, intro grid)
  qed
qed

text \<open>
  After \<^verbatim>\<open>-b -c full -g density\<close>, a following \<^verbatim>\<open>-z\<close> gives the codec ZIP, a following
  \<^verbatim>\<open>-c NONE\<close> disables the checksum and a following \<^verbatim>\<open>-g temperature\<close> replaces the grid name.
\<close>

theorem later_options_override_witness:
  "parse_args init_opts [''-b'', ''-c'', ''full'', ''-g'', ''density''] =
     Inr (init_opts\<lparr>codec := BLOSC, cMode := CM_Full, gridName := ''density''\<rparr>) \<and>
   parse_args init_opts ([''-b'', ''-c'', ''full'', ''-g'', ''density''] @ [''-z'', ''a.vdb'', ''out.nvdb'']) =
     Inr (init_opts\<lparr>codec := ZIP, cMode := CM_Full, gridName := ''density'',
                    fileNames := [''a.vdb'', ''out.nvdb'']\<rparr>) \<and>
   parse_args init_opts
       ([''-b'', ''-c'', ''full'', ''-g'', ''density''] @ [''-c'', ''NONE'', ''a.vdb'', ''out.nvdb'']) =
     Inr (init_opts\<lparr>codec := BLOSC, cMode := CM_Disable, gridName := ''density'',
                    fileNames := [''a.vdb'', ''out.nvdb'']\<rparr>) \<and>
   parse_args init_opts
       ([''-b'', ''-c'', ''full'', ''-g'', ''density''] @ [''-g'', ''temperature'', ''a.vdb'', ''out.nvdb'']) =
     Inr (init_opts\<lparr>codec := BLOSC, cMode := CM_Full, gridName := ''temperature'',
                    fileNames := [''a.vdb'', ''out.nvdb'']\<rparr>) \<and>
   codec (init_opts\<lparr>codec := ZIP, cMode := CM_Full, gridName := ''density'',
                    fileNames := [''a.vdb'', ''out.nvdb'']\<rparr>) = ZIP \<and>
   cMode (init_opts\<lparr>codec := BLOSC, cMode := CM_Disable, gridName := ''density'',
                    fileNames := [''a.vdb'', ''out.nvdb'']\<rparr>) = CM_Disable \<and>
   gridName (init_opts\<lparr>codec := BLOSC, cMode := CM_Full, gridName := ''temperature'',
                    fileNames := [''a.vdb'', ''out.nvdb'']\<rparr>) = ''temperature''"
proof -
  have pre: "parse_args init_opts [''-b'', ''-c'', ''full'', ''-g'', ''density''] =
     Inr (init_opts\<lparr>codec := BLOSC, cMode := CM_Full, gridName := ''density''\<rparr>)"
    by code_simp
  have z: "parse_args init_opts
      ([''-b'', ''-c'', ''full'', ''-g'', ''density''] @ [''-z'', ''a.vdb'', ''out.nvdb'']) =
     Inr (init_opts\<lparr>codec := ZIP, cMode := CM_Full, gridName := ''density'',
                    fileNames := [''a.vdb'', ''out.nvdb'']\<rparr>)"
    by code_simp
  have c: "parse_args init_opts
      ([''-b'', ''-c'', ''full'', ''-g'', ''density''] @ [''-c'', ''NONE'', ''a.vdb'', ''out.nvdb'']) =
     Inr (init_opts\<lparr>codec := BLOSC, cMode := CM_Disable, gridName := ''density'',
                    fileNames := [''a.vdb'', ''out.nvdb'']\<rparr>)"
    by code_simp
  have g: "parse_args init_opts
      ([''-b'', ''-c'', ''full'', ''-g'', ''density''] @ [''-g'', ''temperature'', ''a.vdb'', ''out.nvdb'']) =
     Inr (init_opts\<lparr>codec := BLOSC, cMode := CM_Full, gridName := ''temperature'',
                    fileNames := [''a.vdb'', ''out.nvdb'']\<rparr>)"
    by code_simp
  have lower: "map tolower ''NONE'' = ''none''"
    by code_simp
  from later_options_override [OF pre z, of "''-z''" "[''a.vdb'', ''out.nvdb'']"]
  have 1: "codec (init_opts\<lparr>codec := ZIP, cMode := CM_Full, gridName := ''density'',
                    fileNames := [''a.vdb'', ''out.nvdb'']\<rparr>) = ZIP"
    by simp
  from lower later_options_override
    [OF pre c, of "''-c''" _ "''NONE''" "[''a.vdb'', ''out.nvdb'']"]
  have 2: "cMode (init_opts\<lparr>codec := BLOSC, cMode := CM_Disable, gridName := ''density'',
                    fileNames := [''a.vdb'', ''out.nvdb'']\<rparr>) = CM_Disable"
    by simp
  from later_options_override
    [OF pre g, of "''-g''" _ "''temperature''" "[''a.vdb'', ''out.nvdb'']"]
  have 3: "gridName (init_opts\<lparr>codec := BLOSC, cMode := CM_Full, gridName := ''temperature'',
                    fileNames := [''a.vdb'', ''out.nvdb'']\<rparr>) = ''temperature''"
    by simp
  show ?thesis
    by (intro conjI pre z c g 1 2 3)
qed

end
